theory Spec2Isabelle
  imports
    Complex_Main
    "HOL-Library.AList"
    "HOL-Library.Sublist"
    "HOL-Library.Char_ord"
    "HOL-Library.List_Lexorder"
    "HOL-Library.Multiset"
begin

section \<open>Parsed JSON and the Python operations the scripts apply to it\<close>

text \<open>
  Both scripts (\<^verbatim>\<open>linkedin_followers_complete.py\<close> and
  \<^verbatim>\<open>process_existing_followers.py\<close>) work on whatever \<^verbatim>\<open>json.load\<close>
  returns. The type hints say \<^verbatim>\<open>Dict[str, Any]\<close>, but nothing checks them, so the
  model takes any JSON value everywhere and writes out what Python does on each shape.

  \<^item> A \<^verbatim>\<open>str\<close> is the list of its characters.
  \<^item> An \<^verbatim>\<open>int\<close> is an unbounded integer.
  \<^item> A finite \<^verbatim>\<open>float\<close> is \<open>JFloat m e\<close>, the number \<open>m * 2 ^ e\<close>. The tokens
    \<^verbatim>\<open>NaN\<close> and \<^verbatim>\<open>Infinity\<close>, which \<^verbatim>\<open>json.load\<close> accepts although they are not JSON,
    are not modelled.
  \<^item> A \<^verbatim>\<open>dict\<close> is an association list read through \<open>map_of\<close>: the first entry of a
    key is the one that counts.
\<close>

datatype json =
    JNull
  | JBool bool
  | JInt int
  | JFloat int int
  | JStr string
  | JArr "json list"
  | JObj "(string \<times> json) list"

text \<open>The exceptions the scripts can meet while traversing a payload.\<close>

datatype pyerr = TypeError | KeyError | AttributeError

definition bind_err :: "'e + 'a \<Rightarrow> ('a \<Rightarrow> 'e + 'b) \<Rightarrow> 'e + 'b" where
  "bind_err r f = (case r of Inl e \<Rightarrow> Inl e | Inr x \<Rightarrow> f x)"

text \<open>
  \<^verbatim>\<open>k in c\<close> for a string \<open>k\<close>: key membership on a dict, substring test on a str,
  element membership on a list, \<^verbatim>\<open>TypeError\<close> on None, a bool or a number.
\<close>

fun py_contains :: "string \<Rightarrow> json \<Rightarrow> pyerr + bool" where
  "py_contains k (JObj kvs) = Inr (map_of kvs k \<noteq> None)"
| "py_contains k (JStr s) = Inr (sublist k s)"
| "py_contains k (JArr xs) = Inr (JStr k \<in> set xs)"
| "py_contains k JNull = Inl TypeError"
| "py_contains k (JBool b) = Inl TypeError"
| "py_contains k (JInt i) = Inl TypeError"
| "py_contains k (JFloat m e) = Inl TypeError"

text \<open>
  \<^verbatim>\<open>c[k]\<close> for a string \<open>k\<close>: the value or \<^verbatim>\<open>KeyError\<close> on a dict, \<^verbatim>\<open>TypeError\<close> on
  everything else (a str and a list take integer indices only).
\<close>

fun py_getitem :: "json \<Rightarrow> string \<Rightarrow> pyerr + json" where
  "py_getitem (JObj kvs) k = (case map_of kvs k of Some v \<Rightarrow> Inr v | None \<Rightarrow> Inl KeyError)"
| "py_getitem (JStr s) k = Inl TypeError"
| "py_getitem (JArr xs) k = Inl TypeError"
| "py_getitem JNull k = Inl TypeError"
| "py_getitem (JBool b) k = Inl TypeError"
| "py_getitem (JInt i) k = Inl TypeError"
| "py_getitem (JFloat m e) k = Inl TypeError"

text \<open>\<^verbatim>\<open>c.get(k, default)\<close>: only a dict has the method.\<close>

fun py_get :: "json \<Rightarrow> string \<Rightarrow> json \<Rightarrow> pyerr + json" where
  "py_get (JObj kvs) k d = Inr (case map_of kvs k of Some v \<Rightarrow> v | None \<Rightarrow> d)"
| "py_get (JStr s) k d = Inl AttributeError"
| "py_get (JArr xs) k d = Inl AttributeError"
| "py_get JNull k d = Inl AttributeError"
| "py_get (JBool b) k d = Inl AttributeError"
| "py_get (JInt i) k d = Inl AttributeError"
| "py_get (JFloat m e) k d = Inl AttributeError"

text \<open>\<^verbatim>\<open>isinstance(v, dict)\<close>.\<close>

fun is_dict :: "json \<Rightarrow> bool" where
  "is_dict (JObj kvs) = True"
| "is_dict (JStr s) = False"
| "is_dict (JArr xs) = False"
| "is_dict JNull = False"
| "is_dict (JBool b) = False"
| "is_dict (JInt i) = False"
| "is_dict (JFloat m e) = False"

text \<open>Truth value of a JSON value in a condition.\<close>

fun truthy :: "json \<Rightarrow> bool" where
  "truthy JNull = False"
| "truthy (JBool b) = b"
| "truthy (JInt i) = (i \<noteq> 0)"
| "truthy (JFloat m e) = (m \<noteq> 0)"
| "truthy (JStr s) = (s \<noteq> [])"
| "truthy (JArr xs) = (xs \<noteq> [])"
| "truthy (JObj kvs) = (kvs \<noteq> [])"

text \<open>The keys of a dict in insertion order (each key once, at its first entry).\<close>

definition dict_keys :: "(string \<times> json) list \<Rightarrow> string list" where
  "dict_keys kvs = rev (remdups (rev (map fst kvs)))"

text \<open>
  \<^verbatim>\<open>for x in c\<close>: the items of a list, the characters of a str (each a str of length
  one), the keys of a dict; \<^verbatim>\<open>TypeError\<close> otherwise. \<^verbatim>\<open>len(c)\<close> is defined on the same
  shapes.
\<close>

fun py_iter :: "json \<Rightarrow> pyerr + json list" where
  "py_iter (JArr xs) = Inr xs"
| "py_iter (JStr s) = Inr (map (\<lambda>c. JStr [c]) s)"
| "py_iter (JObj kvs) = Inr (map JStr (dict_keys kvs))"
| "py_iter JNull = Inl TypeError"
| "py_iter (JBool b) = Inl TypeError"
| "py_iter (JInt i) = Inl TypeError"
| "py_iter (JFloat m e) = Inl TypeError"

fun py_len :: "json \<Rightarrow> pyerr + nat" where
  "py_len (JArr xs) = Inr (length xs)"
| "py_len (JStr s) = Inr (length s)"
| "py_len (JObj kvs) = Inr (length (dict_keys kvs))"
| "py_len JNull = Inl TypeError"
| "py_len (JBool b) = Inl TypeError"
| "py_len (JInt i) = Inl TypeError"
| "py_len (JFloat m e) = Inl TypeError"

subsection \<open>Decimal numerals and \<^verbatim>\<open>str()\<close>\<close>

definition digit_char :: "nat \<Rightarrow> char" where
  "digit_char d = char_of (48 + d)"

fun show_nat :: "nat \<Rightarrow> string" where
  "show_nat n = (if n < 10 then [digit_char n] else show_nat (n div 10) @ [digit_char (n mod 10)])"

declare show_nat.simps [simp del]

definition show_int :: "int \<Rightarrow> string" where
  "show_int i = (if i < 0 then CHR ''-'' # show_nat (nat (- i)) else show_nat (nat i))"

text \<open>
  \<^verbatim>\<open>str(v)\<close>, which is also what an f-string puts in place of \<^verbatim>\<open>{v}\<close>. On a float, a
  list or a dict it is Python's \<^verbatim>\<open>repr\<close>, which is not code of this repository: the
  parameter \<open>rp\<close> stands for it.
\<close>

fun py_str :: "(json \<Rightarrow> string) \<Rightarrow> json \<Rightarrow> string" where
  "py_str rp JNull = ''None''"
| "py_str rp (JBool b) = (if b then ''True'' else ''False'')"
| "py_str rp (JInt i) = show_int i"
| "py_str rp (JStr s) = s"
| "py_str rp (JFloat m e) = rp (JFloat m e)"
| "py_str rp (JArr xs) = rp (JArr xs)"
| "py_str rp (JObj kvs) = rp (JObj kvs)"

subsection \<open>Dicts keyed by JSON values\<close>

text \<open>
  \<^verbatim>\<open>profiles[profile["entityUrn"]] = profile\<close> uses an arbitrary JSON value as a key.
  A list or a dict is unhashable (\<^verbatim>\<open>TypeError\<close>); numbers and bools are one key when
  they are equal as numbers (\<^verbatim>\<open>True == 1 == 1.0\<close>).
\<close>

datatype pykey = KNone | KNum rat | KStr string

fun py_hash :: "json \<Rightarrow> pyerr + pykey" where
  "py_hash JNull = Inr KNone"
| "py_hash (JBool b) = Inr (KNum (if b then 1 else 0))"
| "py_hash (JInt i) = Inr (KNum (of_int i))"
| "py_hash (JFloat m e) =
     Inr (KNum (if 0 \<le> e then of_int (m * 2 ^ nat e) else of_int m / of_int (2 ^ nat (- e))))"
| "py_hash (JStr s) = Inr (KStr s)"
| "py_hash (JArr xs) = Inl TypeError"
| "py_hash (JObj kvs) = Inl TypeError"

type_synonym profile_map = "(pykey \<times> json) list"

text \<open>\<^verbatim>\<open>d.get(key, default)\<close> on such a dict.\<close>

definition dict_get :: "profile_map \<Rightarrow> json \<Rightarrow> json \<Rightarrow> pyerr + json" where
  "dict_get d key dflt =
     bind_err (py_hash key) (\<lambda>k. Inr (case map_of d k of Some v \<Rightarrow> v | None \<Rightarrow> dflt))"

text \<open>\<^verbatim>\<open>d[key] = v\<close>: the entry is replaced in place, a new key goes to the end.\<close>

definition dict_set :: "profile_map \<Rightarrow> json \<Rightarrow> json \<Rightarrow> pyerr + profile_map" where
  "dict_set d key v = bind_err (py_hash key) (\<lambda>k. Inr (AList.update k v d))"

text \<open>\<^verbatim>\<open>d.update(other)\<close>: the entries of \<open>other\<close> are stored one after the other.\<close>

definition dict_update :: "profile_map \<Rightarrow> profile_map \<Rightarrow> profile_map" where
  "dict_update d other = fold (\<lambda>(k, v) acc. AList.update k v acc) other d"

section \<open>What the scripts print\<close>

text \<open>
  Each constructor is one \<^verbatim>\<open>print\<close> of the reducer side of the scripts, with the
  values its f-string shows; the text of an exception (\<^verbatim>\<open>{e}\<close>) is reduced to its
  kind, or left out for an I/O failure. \<open>NoFilesFoundMatching\<close> and
  \<open>NoDownloadedPageFiles\<close> are the "no input" messages of the two scripts,
  \<open>NoDataFound\<close> is \<^verbatim>\<open>"No data found to process"\<close>.
\<close>

datatype msg =
    ErrorExtractingElements pyerr
  | ErrorBuildingRow pyerr
  | NoFilesFoundMatching string
  | MakeSureDownloaded
  | NoDownloadedPageFiles
  | FoundPageFiles nat
  | ProcessingDownloaded nat
  | Processing string
  | ErrorReading string
  | FoundProfiles nat
  | FoundElements nat
  | TotalUniqueProfiles nat
  | TotalFollowerRows nat
  | NoRowsToWrite
  | SuccessfullyWrote nat string
  | ErrorWritingCSV
  | BannerTitle
  | BannerRule
  | BannerProcessing
  | NoDataFound
  | Success string nat
  | CsvIncludes
  | FailedToCreateCSV

section \<open>Entity extractor and relationship extractor\<close>

text \<open>
  \<^verbatim>\<open>extract_profiles_from_page\<close> (the same text in both scripts). Nothing catches an
  exception here: it leaves the function.
\<close>

fun extract_profiles_loop :: "json list \<Rightarrow> profile_map \<Rightarrow> pyerr + profile_map" where
  "extract_profiles_loop [] profiles = Inr profiles"
| "extract_profiles_loop (profile # rest) profiles =
     bind_err (py_contains ''entityUrn'' profile) (\<lambda>has_urn.
     bind_err (if has_urn then py_contains ''publicIdentifier'' profile else Inr False) (\<lambda>has_both.
       if has_both then
         bind_err (py_getitem profile ''entityUrn'') (\<lambda>urn.
         bind_err (dict_set profiles urn profile) (\<lambda>profiles'.
           extract_profiles_loop rest profiles'))
       else extract_profiles_loop rest profiles))"

definition extract_profiles_from_page :: "json \<Rightarrow> pyerr + profile_map" where
  "extract_profiles_from_page page_data =
     bind_err (py_contains ''included'' page_data) (\<lambda>has_included.
       if has_included then
         bind_err (py_getitem page_data ''included'') (\<lambda>included.
         bind_err (py_iter included) (\<lambda>items.
           extract_profiles_loop items []))
       else Inr [])"

text \<open>
  \<^verbatim>\<open>extract_elements_from_page\<close> (the same text in both scripts). The body of the
  \<^verbatim>\<open>try\<close> is \<open>extract_elements_try\<close>; the handler prints and the function returns
  the initial \<^verbatim>\<open>elements = []\<close>.
\<close>

definition CONTAINER :: string where
  "CONTAINER = ''organizationDashFollowersByOrganizationalPage''"

text \<open>
  \<^verbatim>\<open># Navigate to the elements array\<close>
  \<^verbatim>\<open>if "data" in page_data and "data" in page_data["data"]:\<close>
  \<^verbatim>\<open>    main_data = page_data["data"]["data"]\<close>
  \<^verbatim>\<open>elif "data" in page_data:\<close>
  \<^verbatim>\<open>    main_data = page_data["data"]\<close>
  \<^verbatim>\<open>else:\<close>
  \<^verbatim>\<open>    main_data = page_data\<close>
\<close>

definition navigate_to_main_data :: "json \<Rightarrow> pyerr + json" where
  "navigate_to_main_data page_data =
     bind_err (py_contains ''data'' page_data) (\<lambda>has_data.
     bind_err (if has_data then bind_err (py_getitem page_data ''data'') (py_contains ''data'')
               else Inr False) (\<lambda>has_data_data.
       if has_data_data then
         bind_err (py_getitem page_data ''data'') (\<lambda>d. py_getitem d ''data'')
       else
         bind_err (py_contains ''data'' page_data) (\<lambda>has_data'.
           if has_data' then py_getitem page_data ''data'' else Inr page_data)))"

text \<open>
  \<^verbatim>\<open># Find the follower elements\<close>
  \<^verbatim>\<open>if "organizationDashFollowersByOrganizationalPage" in main_data:\<close>
  \<^verbatim>\<open>    follower_data = main_data["organizationDashFollowersByOrganizationalPage"]\<close>
  \<^verbatim>\<open>    if "elements" in follower_data:\<close>
  \<^verbatim>\<open>        elements = follower_data["elements"]\<close>
  Where no assignment is reached, \<^verbatim>\<open>elements\<close> keeps its initial value \<^verbatim>\<open>[]\<close>.
\<close>

definition find_follower_elements :: "json \<Rightarrow> pyerr + json" where
  "find_follower_elements main_data =
     bind_err (py_contains CONTAINER main_data) (\<lambda>has_container.
       if has_container then
         bind_err (py_getitem main_data CONTAINER) (\<lambda>follower_data.
         bind_err (py_contains ''elements'' follower_data) (\<lambda>has_elements.
           if has_elements then py_getitem follower_data ''elements'' else Inr (JArr [])))
       else Inr (JArr []))"

definition extract_elements_try :: "json \<Rightarrow> pyerr + json" where
  "extract_elements_try page_data =
     bind_err (navigate_to_main_data page_data) find_follower_elements"

definition extract_elements_from_page :: "json \<Rightarrow> msg list \<times> json" where
  "extract_elements_from_page page_data =
     (case extract_elements_try page_data of
        Inl e \<Rightarrow> ([ErrorExtractingElements e], JArr [])
      | Inr elements \<Rightarrow> ([], elements))"

section \<open>Row builder\<close>

text \<open>
  A row is the dict literal of \<^verbatim>\<open>build_follower_row\<close>: the eight columns in the order
  they are written. The empty dict \<^verbatim>\<open>{}\<close> that the handler returns is \<open>[]\<close>.
\<close>

type_synonym row = "(string \<times> json) list"

text \<open>
  The body of \<^verbatim>\<open>build_follower_row\<close> is the same text in both scripts down to the row
  literal. Its steps, one definition per commented block of the source:

  \<^verbatim>\<open># Get the profile URN from the follower element\<close>
  \<^verbatim>\<open>profile_urn = None\<close>
  \<^verbatim>\<open>if "followerV2" in element and "*profile" in element["followerV2"]:\<close>
  \<^verbatim>\<open>    profile_urn = element["followerV2"]["*profile"]\<close>
\<close>

definition get_profile_urn :: "json \<Rightarrow> pyerr + json" where
  "get_profile_urn element =
     bind_err (py_contains ''followerV2'' element) (\<lambda>has_follower.
     bind_err (if has_follower then bind_err (py_getitem element ''followerV2'') (py_contains ''*profile'')
               else Inr False) (\<lambda>has_reference.
       if has_reference then
         bind_err (py_getitem element ''followerV2'') (\<lambda>follower. py_getitem follower ''*profile'')
       else Inr JNull))"

text \<open>
  \<^verbatim>\<open># Get the profile data\<close>
  \<^verbatim>\<open>profile = profile_map.get(profile_urn, {}) if profile_urn else {}\<close>
\<close>

definition get_profile_data :: "profile_map \<Rightarrow> json \<Rightarrow> pyerr + json" where
  "get_profile_data profile_map profile_urn =
     (if truthy profile_urn then dict_get profile_map profile_urn (JObj []) else Inr (JObj []))"

text \<open>
  \<^verbatim>\<open># Extract followedAt information\<close>
  \<^verbatim>\<open>followed_at = element.get("followedAt", {})\<close>
  \<^verbatim>\<open>if isinstance(followed_at, dict):\<close>
  \<^verbatim>\<open>    followed_text = followed_at.get("text", "")\<close>
  \<^verbatim>\<open>    followed_accessibility = followed_at.get("accessibilityText", "")\<close>
  \<^verbatim>\<open>else:\<close>
  \<^verbatim>\<open>    followed_text = str(followed_at) if followed_at else ""\<close>
  \<^verbatim>\<open>    followed_accessibility = ""\<close>
  The result is the pair \<open>(followed_text, followed_accessibility)\<close>.
\<close>

definition extract_followed_at :: "(json \<Rightarrow> string) \<Rightarrow> json \<Rightarrow> pyerr + json \<times> json" where
  "extract_followed_at rp element =
     bind_err (py_get element ''followedAt'' (JObj [])) (\<lambda>followed_at.
       if is_dict followed_at then
         bind_err (py_get followed_at ''text'' (JStr '''')) (\<lambda>followed_text.
         bind_err (py_get followed_at ''accessibilityText'' (JStr '''')) (\<lambda>followed_accessibility.
           Inr (followed_text, followed_accessibility)))
       else
         Inr (if truthy followed_at then JStr (py_str rp followed_at) else JStr '''', JStr ''''))"

text \<open>
  \<^verbatim>\<open># Construct LinkedIn profile URL\<close>
  \<^verbatim>\<open>public_identifier = profile.get("publicIdentifier", "")\<close>
  \<^verbatim>\<open>linkedin_url = f"https://www.linkedin.com/in/{public_identifier}/" if public_identifier else ""\<close>
  The result is the pair \<open>(public_identifier, linkedin_url)\<close>.
\<close>

definition construct_linkedin_url :: "(json \<Rightarrow> string) \<Rightarrow> json \<Rightarrow> pyerr + json \<times> json" where
  "construct_linkedin_url rp profile =
     bind_err (py_get profile ''publicIdentifier'' (JStr '''')) (\<lambda>public_identifier.
       Inr (public_identifier,
            if truthy public_identifier
            then JStr (''https://www.linkedin.com/in/'' @ py_str rp public_identifier @ ''/'')
            else JStr ''''))"

text \<open>
  \<^verbatim>\<open>build_follower_row\<close> of \<^verbatim>\<open>linkedin_followers_complete.py\<close>: the body of the
  \<^verbatim>\<open>try\<close>, then the function. The last column is
  \<^verbatim>\<open>profile.get("entityUrn", element.get("entityUrn", ""))\<close>.
\<close>

definition build_follower_row_try_complete :: "(json \<Rightarrow> string) \<Rightarrow> json \<Rightarrow> profile_map \<Rightarrow> pyerr + row" where
  "build_follower_row_try_complete rp element profile_map =
     bind_err (get_profile_urn element) (\<lambda>profile_urn.
     bind_err (get_profile_data profile_map profile_urn) (\<lambda>profile.
     bind_err (extract_followed_at rp element) (\<lambda>(followed_text, followed_accessibility).
     bind_err (construct_linkedin_url rp profile) (\<lambda>(public_identifier, linkedin_url).
     bind_err (py_get profile ''firstName'' (JStr '''')) (\<lambda>first_name.
     bind_err (py_get profile ''lastName'' (JStr '''')) (\<lambda>last_name.
     bind_err (py_get profile ''headline'' (JStr '''')) (\<lambda>headline.
     bind_err (py_get element ''entityUrn'' (JStr '''')) (\<lambda>element_urn.
     bind_err (py_get profile ''entityUrn'' element_urn) (\<lambda>entity_urn.
       Inr [(''firstName'', first_name),
            (''lastName'', last_name),
            (''headline'', headline),
            (''publicIdentifier'', public_identifier),
            (''linkedinUrl'', linkedin_url),
            (''followedAt.text'', followed_text),
            (''followedAt.accessibilityText'', followed_accessibility),
            (''entityUrn'', entity_urn)])))))))))"

definition build_follower_row_complete :: "(json \<Rightarrow> string) \<Rightarrow> json \<Rightarrow> profile_map \<Rightarrow> msg list \<times> row" where
  "build_follower_row_complete rp element profile_map =
     (case build_follower_row_try_complete rp element profile_map of
        Inl e \<Rightarrow> ([ErrorBuildingRow e], [])
      | Inr row \<Rightarrow> ([], row))"

text \<open>
  \<^verbatim>\<open>build_follower_row\<close> of \<^verbatim>\<open>process_existing_followers.py\<close>. Its last column is
  \<^verbatim>\<open>profile.get("entityUrn", "")\<close>: the element's own identifier is not consulted.
\<close>

definition build_follower_row_try_existing :: "(json \<Rightarrow> string) \<Rightarrow> json \<Rightarrow> profile_map \<Rightarrow> pyerr + row" where
  "build_follower_row_try_existing rp element profile_map =
     bind_err (get_profile_urn element) (\<lambda>profile_urn.
     bind_err (get_profile_data profile_map profile_urn) (\<lambda>profile.
     bind_err (extract_followed_at rp element) (\<lambda>(followed_text, followed_accessibility).
     bind_err (construct_linkedin_url rp profile) (\<lambda>(public_identifier, linkedin_url).
     bind_err (py_get profile ''firstName'' (JStr '''')) (\<lambda>first_name.
     bind_err (py_get profile ''lastName'' (JStr '''')) (\<lambda>last_name.
     bind_err (py_get profile ''headline'' (JStr '''')) (\<lambda>headline.
     bind_err (py_get profile ''entityUrn'' (JStr '''')) (\<lambda>entity_urn.
       Inr [(''firstName'', first_name),
            (''lastName'', last_name),
            (''headline'', headline),
            (''publicIdentifier'', public_identifier),
            (''linkedinUrl'', linkedin_url),
            (''followedAt.text'', followed_text),
            (''followedAt.accessibilityText'', followed_accessibility),
            (''entityUrn'', entity_urn)]))))))))"

definition build_follower_row_existing :: "(json \<Rightarrow> string) \<Rightarrow> json \<Rightarrow> profile_map \<Rightarrow> msg list \<times> row" where
  "build_follower_row_existing rp element profile_map =
     (case build_follower_row_try_existing rp element profile_map of
        Inl e \<Rightarrow> ([ErrorBuildingRow e], [])
      | Inr row \<Rightarrow> ([], row))"

section \<open>Snapshot files\<close>





definition INPUT_PATTERN :: string where
  "INPUT_PATTERN = ''followers_page_*.json''"

text \<open>
  \<^verbatim>\<open>glob.glob("followers_page_*.json")\<close> keeps the names of the working directory
  that start with the text before the star and go on to end with the text after it.
\<close>

definition matches_input_pattern :: "string \<Rightarrow> bool" where
  "matches_input_pattern name =
     (prefix ''followers_page_'' name \<and> suffix ''.json'' (drop (length ''followers_page_'') name))"

text \<open>
  \<^verbatim>\<open>sorted(glob.glob(...))\<close>: Python orders strings character by character, a proper
  prefix first, which is the order of \<open>string\<close> here. \<open>dir\<close> lists the names in the
  working directory.
\<close>

definition page_files :: "string list \<Rightarrow> string list" where
  "page_files dir = sort (filter matches_input_pattern dir)"

section \<open>Page-set orchestrator\<close>

text \<open>
  The loop of \<^verbatim>\<open>process_downloaded_pages\<close> and \<^verbatim>\<open>process_existing_pages\<close> is the
  same text in both scripts but for the \<^verbatim>\<open>build_follower_row\<close> it calls, which is
  the parameter \<open>build\<close>. \<open>rd name\<close> is the outcome of opening \<open>name\<close> and
  \<^verbatim>\<open>json.load\<close>: \<open>None\<close> when either raises.

  The state of the loop is \<^verbatim>\<open>all_rows\<close>, \<^verbatim>\<open>all_profiles\<close> and what has been printed.
  An exception that nothing catches ends the function: \<open>Inl\<close> with what was printed
  until then.
\<close>

record reducer_state =
  all_rows :: "row list"
  all_profiles :: profile_map
  printed :: "msg list"

text \<open>\<^verbatim>\<open>for element in elements: row = build_follower_row(...); if row: all_rows.append(row)\<close>\<close>

fun build_rows :: "(json \<Rightarrow> profile_map \<Rightarrow> msg list \<times> row) \<Rightarrow> json list \<Rightarrow> profile_map \<Rightarrow> msg list \<times> row list" where
  "build_rows build [] profiles = ([], [])"
| "build_rows build (element # rest) profiles =
     (let (m, row) = build element profiles;
          (ms, rows) = build_rows build rest profiles
      in (m @ ms, if row \<noteq> [] then row # rows else rows))"

text \<open>One iteration of \<^verbatim>\<open>for i, filename in enumerate(page_files)\<close>.\<close>

definition process_page :: "(json \<Rightarrow> profile_map \<Rightarrow> msg list \<times> row) \<Rightarrow> (string \<Rightarrow> json option) \<Rightarrow> string \<Rightarrow> reducer_state \<Rightarrow> (msg list \<times> pyerr) + reducer_state" where
  "process_page build rd filename st =
     (let out1 = printed st @ [Processing filename] in
      case rd filename of
        None \<Rightarrow> Inr (st\<lparr>printed := out1 @ [ErrorReading filename]\<rparr>)
      | Some page_data \<Rightarrow>
          (case extract_profiles_from_page page_data of
             Inl e \<Rightarrow> Inl (out1, e)
           | Inr page_profiles \<Rightarrow>
               (let profiles = dict_update (all_profiles st) page_profiles;
                    out2 = out1 @ [FoundProfiles (length page_profiles)];
                    (m, elements) = extract_elements_from_page page_data;
                    out3 = out2 @ m
                in case py_len elements of
                     Inl e \<Rightarrow> Inl (out3, e)
                   | Inr n \<Rightarrow>
                       (let out4 = out3 @ [FoundElements n] in
                        case py_iter elements of
                          Inl e \<Rightarrow> Inl (out4, e)
                        | Inr items \<Rightarrow>
                            (let (ms, rows) = build_rows build items profiles
                             in Inr \<lparr>all_rows = all_rows st @ rows,
                                     all_profiles = profiles,
                                     printed = out4 @ ms\<rparr>)))))"

fun process_files :: "(json \<Rightarrow> profile_map \<Rightarrow> msg list \<times> row) \<Rightarrow> (string \<Rightarrow> json option) \<Rightarrow> string list \<Rightarrow> reducer_state \<Rightarrow> (msg list \<times> pyerr) + reducer_state" where
  "process_files build rd [] st = Inr st"
| "process_files build rd (filename # rest) st =
     bind_err (process_page build rd filename st) (process_files build rd rest)"

text \<open>
  The two reducers. Each returns what it printed and either its rows or the exception
  that ended it.
\<close>

definition process_downloaded_pages :: "(json \<Rightarrow> string) \<Rightarrow> string list \<Rightarrow> (string \<Rightarrow> json option) \<Rightarrow> msg list \<times> (pyerr + row list)" where
  "process_downloaded_pages rp dir rd =
     (let files = page_files dir in
      if files = [] then ([NoDownloadedPageFiles], Inr [])
      else
        case process_files (build_follower_row_complete rp) rd files
               \<lparr>all_rows = [], all_profiles = [], printed = [ProcessingDownloaded (length files)]\<rparr> of
          Inl (out, e) \<Rightarrow> (out, Inl e)
        | Inr st \<Rightarrow>
            (printed st @ [TotalUniqueProfiles (length (all_profiles st)),
                           TotalFollowerRows (length (all_rows st))],
             Inr (all_rows st)))"

definition process_existing_pages :: "(json \<Rightarrow> string) \<Rightarrow> string list \<Rightarrow> (string \<Rightarrow> json option) \<Rightarrow> msg list \<times> (pyerr + row list)" where
  "process_existing_pages rp dir rd =
     (let files = page_files dir in
      if files = [] then ([NoFilesFoundMatching INPUT_PATTERN, MakeSureDownloaded], Inr [])
      else
        case process_files (build_follower_row_existing rp) rd files
               \<lparr>all_rows = [], all_profiles = [], printed = [FoundPageFiles (length files)]\<rparr> of
          Inl (out, e) \<Rightarrow> (out, Inl e)
        | Inr st \<Rightarrow>
            (printed st @ [TotalUniqueProfiles (length (all_profiles st)),
                           TotalFollowerRows (length (all_rows st))],
             Inr (all_rows st)))"

section \<open>Exporter and the process-only entry point\<close>

text \<open>
  What a run does to the outside: it prints, and \<^verbatim>\<open>write_csv\<close> may open the output
  file for writing (which creates or truncates it) and write the header and the rows.
  \<open>io\<close> says how far the file operations get before one raises.
\<close>

datatype effect =
    Print msg
  | OpenForWriting string
  | WriteCsv string "string list" "row list"

datatype io_outcome = OpenFails | WriteFails | WriteOk

definition fieldnames :: "string list" where
  "fieldnames = [''firstName'', ''lastName'', ''headline'', ''publicIdentifier'', ''linkedinUrl'',
                 ''followedAt.text'', ''followedAt.accessibilityText'', ''entityUrn'']"

definition OUTPUT_FILE :: string where
  "OUTPUT_FILE = ''followers.csv''"

definition write_csv :: "io_outcome \<Rightarrow> string \<Rightarrow> row list \<Rightarrow> effect list \<times> bool" where
  "write_csv io filename rows =
     (if rows = [] then ([Print NoRowsToWrite], False)
      else case io of
        OpenFails \<Rightarrow> ([Print ErrorWritingCSV], False)
      | WriteFails \<Rightarrow> ([OpenForWriting filename, Print ErrorWritingCSV], False)
      | WriteOk \<Rightarrow>
          ([OpenForWriting filename, WriteCsv filename fieldnames rows,
            Print (SuccessfullyWrote (length rows) filename)], True))"

text \<open>
  \<^verbatim>\<open>main\<close> of \<^verbatim>\<open>process_existing_followers.py\<close>: its effects, and the exception that
  ended it if one did.
\<close>

definition main_existing :: "(json \<Rightarrow> string) \<Rightarrow> io_outcome \<Rightarrow> string list \<Rightarrow> (string \<Rightarrow> json option) \<Rightarrow> effect list \<times> pyerr option" where
  "main_existing rp io dir rd =
     (let banner = [Print BannerTitle, Print BannerRule, Print BannerProcessing];
          (out, result) = process_existing_pages rp dir rd
      in case result of
           Inl e \<Rightarrow> (banner @ map Print out, Some e)
         | Inr rows \<Rightarrow>
             if rows = [] then (banner @ map Print out @ [Print NoDataFound], None)
             else
               (let (effects, ok) = write_csv io OUTPUT_FILE rows in
                if ok then
                  (banner @ map Print out @ effects @
                     [Print (Success OUTPUT_FILE (length rows)), Print CsvIncludes], None)
                else (banner @ map Print out @ effects @ [Print FailedToCreateCSV], None)))"

section \<open>Values used in the statements\<close>

text \<open>The entry \<open>k\<close> of a JSON value: a dict has it or not, nothing else has entries.\<close>

fun field :: "json \<Rightarrow> string \<Rightarrow> json option" where
  "field (JObj kvs) k = map_of kvs k"
| "field (JStr s) k = None"
| "field (JArr xs) k = None"
| "field JNull k = None"
| "field (JBool b) k = None"
| "field (JInt i) k = None"
| "field (JFloat m e) k = None"

text \<open>
  The two \<^verbatim>\<open>followedAt\<close> columns as a function of the element's \<^verbatim>\<open>followedAt\<close> entry;
  lemma \<open>extract_followed_at_dict\<close> below shows that this is what
  \<open>extract_followed_at\<close> returns on a dict.
\<close>

definition followed_text_of :: "(json \<Rightarrow> string) \<Rightarrow> json option \<Rightarrow> json" where
  "followed_text_of rp fa =
     (case fa of
        None \<Rightarrow> JStr ''''
      | Some (JObj d) \<Rightarrow> (case map_of d ''text'' of Some t \<Rightarrow> t | None \<Rightarrow> JStr '''')
      | Some v \<Rightarrow> if truthy v then JStr (py_str rp v) else JStr '''')"

definition followed_accessibility_of :: "json option \<Rightarrow> json" where
  "followed_accessibility_of fa =
     (case fa of
        None \<Rightarrow> JStr ''''
      | Some (JObj d) \<Rightarrow> (case map_of d ''accessibilityText'' of Some t \<Rightarrow> t | None \<Rightarrow> JStr '''')
      | Some v \<Rightarrow> JStr '''')"

text \<open>
  The one object the relationship extractor examines, and what it takes from it, written
  with \<open>field\<close>: the deepest wrapper that is there (\<^verbatim>\<open>data.data\<close>, else \<^verbatim>\<open>data\<close>, else
  the snapshot itself), and the \<^verbatim>\<open>elements\<close> of the container in that object.
\<close>

definition main_data_of :: "json \<Rightarrow> json" where
  "main_data_of page_data =
     (case field page_data ''data'' of
        None \<Rightarrow> page_data
      | Some d \<Rightarrow> (case field d ''data'' of None \<Rightarrow> d | Some dd \<Rightarrow> dd))"

definition container_elements :: "json \<Rightarrow> json" where
  "container_elements main_data =
     (case field main_data CONTAINER of
        None \<Rightarrow> JArr []
      | Some follower_data \<Rightarrow>
          (case field follower_data ''elements'' of None \<Rightarrow> JArr [] | Some elements \<Rightarrow> elements))"

text \<open>
  What one snapshot file contributes: the profiles the entity extractor finds in it and
  the elements the loop iterates over (nothing for a file that cannot be read).
\<close>

definition profiles_in :: "(string \<Rightarrow> json option) \<Rightarrow> string \<Rightarrow> profile_map" where
  "profiles_in rd filename =
     (case rd filename of
        None \<Rightarrow> []
      | Some page_data \<Rightarrow>
          (case extract_profiles_from_page page_data of Inl e \<Rightarrow> [] | Inr profiles \<Rightarrow> profiles))"

definition elements_in :: "(string \<Rightarrow> json option) \<Rightarrow> string \<Rightarrow> json list" where
  "elements_in rd filename =
     (case rd filename of
        None \<Rightarrow> []
      | Some page_data \<Rightarrow>
          (case py_iter (snd (extract_elements_from_page page_data)) of
             Inl e \<Rightarrow> [] | Inr items \<Rightarrow> items))"

text \<open>What the entity extractor stores: dicts, under distinct keys.\<close>

definition dicts_only :: "profile_map \<Rightarrow> bool" where
  "dicts_only pm = list_all (\<lambda>kv. is_dict (snd kv)) pm"

text \<open>
  The elements on which \<^verbatim>\<open>build_follower_row\<close> returns a row rather than \<^verbatim>\<open>{}\<close>, given
  a mapping that holds dicts only (lemmas \<open>complete_builds_iff\<close> and
  \<open>existing_builds_iff\<close>): a dict whose profile reference can be read and, when it
  counts as true, can be hashed.
\<close>

definition buildable :: "json \<Rightarrow> bool" where
  "buildable element =
     (is_dict element \<and>
      (case get_profile_urn element of
         Inl e \<Rightarrow> False
       | Inr urn \<Rightarrow>
           (if truthy urn then (case py_hash urn of Inl e \<Rightarrow> False | Inr k \<Rightarrow> True) else True)))"

text \<open>
  What a run of the loop comes to apart from what it printed: the exception that ended
  it, or the rows and the mapping.
\<close>

definition outcome :: "(msg list \<times> pyerr) + reducer_state \<Rightarrow> pyerr + row list \<times> profile_map" where
  "outcome r = (case r of Inl (out, e) \<Rightarrow> Inl e | Inr st \<Rightarrow> Inr (all_rows st, all_profiles st))"

text \<open>What the loop over the page files prints.\<close>

fun loop_msg :: "msg \<Rightarrow> bool" where
  "loop_msg (Processing f) = True"
| "loop_msg (ErrorReading f) = True"
| "loop_msg (FoundProfiles n) = True"
| "loop_msg (FoundElements n) = True"
| "loop_msg (ErrorExtractingElements e) = True"
| "loop_msg (ErrorBuildingRow e) = True"
| "loop_msg m = False"

text \<open>
  A value for the parameter \<open>rp\<close> in examples whose payloads hold no float, list or
  dict where \<^verbatim>\<open>str()\<close> is applied.
\<close>

definition repr_unused :: "json \<Rightarrow> string" where
  "repr_unused v = []"

subsection \<open>Example payloads\<close>

text \<open>An element whose profile is in no mapping, with an identifier of its own.\<close>

definition element_without_profile :: json where
  "element_without_profile =
     JObj [(''entityUrn'', JStr ''urn:li:fsd_follower:1''),
           (''followerV2'', JObj [(''*profile'', JStr ''urn:li:fsd_profile:A'')]),
           (''followedAt'', JObj [(''text'', JStr ''3d'')])]"

definition element_followed_primitive :: json where
  "element_followed_primitive = JObj [(''followedAt'', JStr ''2 days ago'')]"

definition element_followed_zero :: json where
  "element_followed_zero = JObj [(''followedAt'', JInt 0)]"

text \<open>
  The example of the spec: page 0 holds the profile \<^verbatim>\<open>urn:1\<close> (\<^verbatim>\<open>alice\<close>) and one element
  that references it, followed \<^verbatim>\<open>3d\<close> ago; the payload is wrapped twice under \<^verbatim>\<open>data\<close>.
\<close>

definition alice_profile :: json where
  "alice_profile = JObj [(''entityUrn'', JStr ''urn:1''), (''publicIdentifier'', JStr ''alice'')]"

definition alice_element :: json where
  "alice_element =
     JObj [(''followerV2'', JObj [(''*profile'', JStr ''urn:1'')]),
           (''followedAt'', JObj [(''text'', JStr ''3d'')])]"

definition page_alice :: json where
  "page_alice =
     JObj [(''data'', JObj [(''data'', JObj [(CONTAINER, JObj [(''elements'', JArr [alice_element])])])]),
           (''included'', JArr [alice_profile])]"

text \<open>
  A working directory with four snapshot files (listed out of order, beside another
  file): page 0 is the spec's example page, page 1 is the empty object, page 2 holds the
  profile \<^verbatim>\<open>urn:1\<close> again with a first name, page 3 cannot be read.
\<close>

definition alice_profile_renamed :: json where
  "alice_profile_renamed =
     JObj [(''entityUrn'', JStr ''urn:1''), (''publicIdentifier'', JStr ''alice''),
           (''firstName'', JStr ''Alice'')]"

definition page_alice_renamed :: json where
  "page_alice_renamed = JObj [(''included'', JArr [alice_profile_renamed])]"

definition example_read :: "string \<Rightarrow> json option" where
  "example_read name =
     (if name = ''followers_page_0.json'' then Some page_alice
      else if name = ''followers_page_1.json'' then Some (JObj [])
      else if name = ''followers_page_2.json'' then Some page_alice_renamed
      else None)"

definition example_dir :: "string list" where
  "example_dir =
     [''followers_page_3.json'', ''followers.csv'', ''followers_page_1.json'',
      ''followers_page_0.json'', ''followers_page_2.json'']"

definition initial_state :: reducer_state where
  "initial_state = \<lparr>all_rows = [], all_profiles = [], printed = []\<rparr>"

text \<open>
  A page with two elements that reference the same profile, and a page whose only element
  has \<^verbatim>\<open>"followerV2": null\<close>; each is the single file of its directory.
\<close>

definition page_alice_twice :: json where
  "page_alice_twice =
     JObj [(''included'', JArr [alice_profile]),
           (CONTAINER, JObj [(''elements'', JArr [alice_element, alice_element])])]"

definition read_alice_twice :: "string \<Rightarrow> json option" where
  "read_alice_twice name = (if name = ''followers_page_0.json'' then Some page_alice_twice else None)"

definition page_null_follower :: json where
  "page_null_follower =
     JObj [(CONTAINER, JObj [(''elements'', JArr [JObj [(''followerV2'', JNull)]])])]"

definition read_null_follower :: "string \<Rightarrow> json option" where
  "read_null_follower name = (if name = ''followers_page_0.json'' then Some page_null_follower else None)"

text \<open>
  A page whose only element is \<open>element_without_profile\<close>, with no profile table, as
  the single file of its directory.
\<close>

definition page_orphan :: json where
  "page_orphan = JObj [(CONTAINER, JObj [(''elements'', JArr [element_without_profile])])]"

definition read_orphan :: "string \<Rightarrow> json option" where
  "read_orphan name = (if name = ''followers_page_0.json'' then Some page_orphan else None)"

text \<open>
  Two pages without relationship elements on which a statement outside every \<^verbatim>\<open>try\<close>
  raises: \<^verbatim>\<open>{"included": null}\<close> (the \<^verbatim>\<open>for\<close> of \<^verbatim>\<open>extract_profiles_from_page\<close>) and
  a container with \<^verbatim>\<open>"elements": null\<close> (\<^verbatim>\<open>len(elements)\<close> in the loop).
\<close>

definition page_included_null :: json where
  "page_included_null = JObj [(''included'', JNull)]"

definition read_included_null :: "string \<Rightarrow> json option" where
  "read_included_null name =
     (if name = ''followers_page_0.json'' then Some page_included_null else None)"

definition page_elements_null :: json where
  "page_elements_null = JObj [(CONTAINER, JObj [(''elements'', JNull)])]"

definition read_elements_null :: "string \<Rightarrow> json option" where
  "read_elements_null name =
     (if name = ''followers_page_0.json'' then Some page_elements_null else None)"

text \<open>
  A snapshot with the container at the top level beside an empty \<^verbatim>\<open>data\<close> wrapper.
\<close>

definition page_container_beside_wrapper :: json where
  "page_container_beside_wrapper =
     JObj [(''data'', JObj []),
           (CONTAINER, JObj [(''elements'', JArr [JObj []])])]"

text \<open>
  An element whose reference is the empty string, and a mapping that does hold a profile
  under the empty string.
\<close>

definition element_empty_reference :: "(string \<times> json) list" where
  "element_empty_reference =
     [(''entityUrn'', JStr ''urn:li:fsd_follower:2''),
      (''followerV2'', JObj [(''*profile'', JStr '''')])]"

definition profiles_with_empty_key :: profile_map where
  "profiles_with_empty_key =
     [(KStr '''', JObj [(''entityUrn'', JStr ''''), (''publicIdentifier'', JStr ''ghost'')])]"

section \<open>Basic facts\<close>

lemma bind_err_Inl [simp]: "bind_err (Inl e) f = Inl e"
  by (simp add: bind_err_def)

lemma bind_err_Inr [simp]: "bind_err (Inr x) f = f x"
  by (simp add: bind_err_def)

lemma bind_err_eq_Inr: "bind_err r f = Inr y \<longleftrightarrow> (\<exists>x. r = Inr x \<and> f x = Inr y)"
  by (cases r) auto

lemma py_get_eq_Inr:
  "py_get c k d = Inr v \<longleftrightarrow> (\<exists>kvs. c = JObj kvs \<and> v = (case map_of kvs k of Some x \<Rightarrow> x | None \<Rightarrow> d))"
  by (cases c) auto

lemma is_dict_iff: "is_dict v \<longleftrightarrow> (\<exists>d. v = JObj d)"
  by (cases v) auto

lemmas builder_defs =
  build_follower_row_complete_def build_follower_row_try_complete_def
  build_follower_row_existing_def build_follower_row_try_existing_def
  get_profile_urn_def get_profile_data_def dict_get_def
  extract_followed_at_def construct_linkedin_url_def

section \<open>The row builder, step by step\<close>

lemma get_profile_urn_absent:
  "map_of kvs ''followerV2'' = None \<Longrightarrow> get_profile_urn (JObj kvs) = Inr JNull"
  by (simp add: get_profile_urn_def)

lemma get_profile_urn_object:
  "map_of kvs ''followerV2'' = Some (JObj fv) \<Longrightarrow>
   get_profile_urn (JObj kvs) = Inr (case map_of fv ''*profile'' of Some r \<Rightarrow> r | None \<Rightarrow> JNull)"
  by (simp add: get_profile_urn_def split: option.splits)

lemma get_profile_data_falsy:
  "\<not> truthy urn \<Longrightarrow> get_profile_data pm urn = Inr (JObj [])"
  by (simp add: get_profile_data_def)

lemma get_profile_data_truthy:
  "truthy urn \<Longrightarrow> py_hash urn = Inr k \<Longrightarrow>
   get_profile_data pm urn = Inr (case map_of pm k of Some v \<Rightarrow> v | None \<Rightarrow> JObj [])"
  by (simp add: get_profile_data_def dict_get_def)

lemma extract_followed_at_dict:
  "extract_followed_at rp (JObj kvs) =
     Inr (followed_text_of rp (map_of kvs ''followedAt''),
          followed_accessibility_of (map_of kvs ''followedAt''))"
proof (cases "map_of kvs ''followedAt''")
  case None
  then show ?thesis
    by (simp add: extract_followed_at_def followed_text_of_def followed_accessibility_of_def)
next
  case (Some fa)
  then show ?thesis
    by (cases fa)
       (simp_all add: extract_followed_at_def followed_text_of_def followed_accessibility_of_def)
qed

lemma extract_followed_at_Inr:
  "extract_followed_at rp element = Inr p \<Longrightarrow> \<exists>kvs. element = JObj kvs"
  by (cases element) (simp_all add: extract_followed_at_def)

lemma construct_linkedin_url_dict:
  "construct_linkedin_url rp (JObj p) =
     Inr (case map_of p ''publicIdentifier'' of Some v \<Rightarrow> v | None \<Rightarrow> JStr '''',
          if truthy (case map_of p ''publicIdentifier'' of Some v \<Rightarrow> v | None \<Rightarrow> JStr '''')
          then JStr (''https://www.linkedin.com/in/''
                     @ py_str rp (case map_of p ''publicIdentifier'' of Some v \<Rightarrow> v | None \<Rightarrow> JStr '''')
                     @ ''/'')
          else JStr '''')"
  by (simp add: construct_linkedin_url_def)

lemma construct_linkedin_url_Inr:
  "construct_linkedin_url rp profile = Inr q \<Longrightarrow> \<exists>p. profile = JObj p"
  by (cases profile) (simp_all add: construct_linkedin_url_def)

text \<open>The row that each builder returns once the reference and the profile are known.\<close>

lemma try_complete_dict:
  assumes "get_profile_urn (JObj kvs) = Inr urn" and "get_profile_data pm urn = Inr (JObj p)"
  shows "build_follower_row_try_complete rp (JObj kvs) pm =
     Inr [(''firstName'', case map_of p ''firstName'' of Some v \<Rightarrow> v | None \<Rightarrow> JStr ''''),
          (''lastName'', case map_of p ''lastName'' of Some v \<Rightarrow> v | None \<Rightarrow> JStr ''''),
          (''headline'', case map_of p ''headline'' of Some v \<Rightarrow> v | None \<Rightarrow> JStr ''''),
          (''publicIdentifier'', case map_of p ''publicIdentifier'' of Some v \<Rightarrow> v | None \<Rightarrow> JStr ''''),
          (''linkedinUrl'',
             if truthy (case map_of p ''publicIdentifier'' of Some v \<Rightarrow> v | None \<Rightarrow> JStr '''')
             then JStr (''https://www.linkedin.com/in/''
                        @ py_str rp (case map_of p ''publicIdentifier'' of Some v \<Rightarrow> v | None \<Rightarrow> JStr '''')
                        @ ''/'')
             else JStr ''''),
          (''followedAt.text'', followed_text_of rp (map_of kvs ''followedAt'')),
          (''followedAt.accessibilityText'', followed_accessibility_of (map_of kvs ''followedAt'')),
          (''entityUrn'', case map_of p ''entityUrn'' of Some v \<Rightarrow> v
                          | None \<Rightarrow> (case map_of kvs ''entityUrn'' of Some v \<Rightarrow> v | None \<Rightarrow> JStr ''''))]"
  by (simp add: build_follower_row_try_complete_def assms extract_followed_at_dict
        construct_linkedin_url_dict)

lemma try_existing_dict:
  assumes "get_profile_urn (JObj kvs) = Inr urn" and "get_profile_data pm urn = Inr (JObj p)"
  shows "build_follower_row_try_existing rp (JObj kvs) pm =
     Inr [(''firstName'', case map_of p ''firstName'' of Some v \<Rightarrow> v | None \<Rightarrow> JStr ''''),
          (''lastName'', case map_of p ''lastName'' of Some v \<Rightarrow> v | None \<Rightarrow> JStr ''''),
          (''headline'', case map_of p ''headline'' of Some v \<Rightarrow> v | None \<Rightarrow> JStr ''''),
          (''publicIdentifier'', case map_of p ''publicIdentifier'' of Some v \<Rightarrow> v | None \<Rightarrow> JStr ''''),
          (''linkedinUrl'',
             if truthy (case map_of p ''publicIdentifier'' of Some v \<Rightarrow> v | None \<Rightarrow> JStr '''')
             then JStr (''https://www.linkedin.com/in/''
                        @ py_str rp (case map_of p ''publicIdentifier'' of Some v \<Rightarrow> v | None \<Rightarrow> JStr '''')
                        @ ''/'')
             else JStr ''''),
          (''followedAt.text'', followed_text_of rp (map_of kvs ''followedAt'')),
          (''followedAt.accessibilityText'', followed_accessibility_of (map_of kvs ''followedAt'')),
          (''entityUrn'', case map_of p ''entityUrn'' of Some v \<Rightarrow> v | None \<Rightarrow> JStr '''')]"
  by (simp add: build_follower_row_try_existing_def assms extract_followed_at_dict
        construct_linkedin_url_dict)

text \<open>Conversely, a row is only built from a dict element whose profile is a dict.\<close>

lemma try_complete_Inr:
  assumes "build_follower_row_try_complete rp element pm = Inr row"
  shows "\<exists>kvs urn p. element = JObj kvs \<and> get_profile_urn element = Inr urn
           \<and> get_profile_data pm urn = Inr (JObj p)"
proof -
  obtain urn where u: "get_profile_urn element = Inr urn"
    using assms by (cases "get_profile_urn element") (simp_all add: build_follower_row_try_complete_def)
  obtain profile where d: "get_profile_data pm urn = Inr profile"
    using assms u
    by (cases "get_profile_data pm urn") (simp_all add: build_follower_row_try_complete_def)
  obtain fa where f: "extract_followed_at rp element = Inr fa"
    using assms u d
    by (cases "extract_followed_at rp element") (simp_all add: build_follower_row_try_complete_def)
  obtain q where c: "construct_linkedin_url rp profile = Inr q"
    using assms u d f
    by (cases "construct_linkedin_url rp profile")
       (simp_all add: build_follower_row_try_complete_def split: prod.splits)
  from f obtain kvs where "element = JObj kvs" using extract_followed_at_Inr by blast
  moreover from c obtain p where "profile = JObj p" using construct_linkedin_url_Inr by blast
  ultimately show ?thesis using u d by blast
qed

lemma try_existing_Inr:
  assumes "build_follower_row_try_existing rp element pm = Inr row"
  shows "\<exists>kvs urn p. element = JObj kvs \<and> get_profile_urn element = Inr urn
           \<and> get_profile_data pm urn = Inr (JObj p)"
proof -
  obtain urn where u: "get_profile_urn element = Inr urn"
    using assms by (cases "get_profile_urn element") (simp_all add: build_follower_row_try_existing_def)
  obtain profile where d: "get_profile_data pm urn = Inr profile"
    using assms u
    by (cases "get_profile_data pm urn") (simp_all add: build_follower_row_try_existing_def)
  obtain fa where f: "extract_followed_at rp element = Inr fa"
    using assms u d
    by (cases "extract_followed_at rp element") (simp_all add: build_follower_row_try_existing_def)
  obtain q where c: "construct_linkedin_url rp profile = Inr q"
    using assms u d f
    by (cases "construct_linkedin_url rp profile")
       (simp_all add: build_follower_row_try_existing_def split: prod.splits)
  from f obtain kvs where "element = JObj kvs" using extract_followed_at_Inr by blast
  moreover from c obtain p where "profile = JObj p" using construct_linkedin_url_Inr by blast
  ultimately show ?thesis using u d by blast
qed

lemma build_complete_Inr_iff:
  "build_follower_row_complete rp element pm = ([], row)
   \<longleftrightarrow> build_follower_row_try_complete rp element pm = Inr row"
  by (auto simp: build_follower_row_complete_def split: sum.splits)

lemma build_existing_Inr_iff:
  "build_follower_row_existing rp element pm = ([], row)
   \<longleftrightarrow> build_follower_row_try_existing rp element pm = Inr row"
  by (auto simp: build_follower_row_existing_def split: sum.splits)

lemma built_row_followed_at:
  assumes "build_follower_row_complete rp element pm = ([], row)
           \<or> build_follower_row_existing rp element pm = ([], row)"
  shows "\<exists>kvs. element = JObj kvs
    \<and> map_of row ''followedAt.text'' = Some (followed_text_of rp (map_of kvs ''followedAt''))
    \<and> map_of row ''followedAt.accessibilityText''
        = Some (followed_accessibility_of (map_of kvs ''followedAt''))"
  using assms
proof
  assume "build_follower_row_complete rp element pm = ([], row)"
  then have r: "build_follower_row_try_complete rp element pm = Inr row"
    by (simp add: build_complete_Inr_iff)
  then obtain kvs urn p where "element = JObj kvs" "get_profile_urn (JObj kvs) = Inr urn"
     "get_profile_data pm urn = Inr (JObj p)"
    using try_complete_Inr by blast
  with r show ?thesis by (auto simp: try_complete_dict[where urn=urn and p=p])
next
  assume "build_follower_row_existing rp element pm = ([], row)"
  then have r: "build_follower_row_try_existing rp element pm = Inr row"
    by (simp add: build_existing_Inr_iff)
  then obtain kvs urn p where "element = JObj kvs" "get_profile_urn (JObj kvs) = Inr urn"
     "get_profile_data pm urn = Inr (JObj p)"
    using try_existing_Inr by blast
  with r show ?thesis by (auto simp: try_existing_dict[where urn=urn and p=p])
qed

section \<open>Claims about the row builder\<close>

text \<open>
  \<^bold>\<open>C7\<close>, as the code has it. For every relationship element for which a row is built,
  by either script:
  \<^item> if \<^verbatim>\<open>followedAt\<close> is an object, the two columns are its \<^verbatim>\<open>text\<close> and
    \<^verbatim>\<open>accessibilityText\<close> entries, each the empty string when absent;
  \<^item> if \<^verbatim>\<open>followedAt\<close> is not an object and counts as true in a condition, the text
    column is \<^verbatim>\<open>str(followedAt)\<close> and the accessibility column is empty;
  \<^item> if \<^verbatim>\<open>followedAt\<close> is absent, or is not an object and counts as false
    (\<^verbatim>\<open>null\<close>, \<^verbatim>\<open>false\<close>, \<^verbatim>\<open>0\<close>, \<^verbatim>\<open>""\<close>, \<^verbatim>\<open>[]\<close>), both columns are empty.
\<close>

theorem followed_at_columns:
  assumes "build_follower_row_complete rp element pm = ([], row)
           \<or> build_follower_row_existing rp element pm = ([], row)"
  shows "(\<forall>d. field element ''followedAt'' = Some (JObj d) \<longrightarrow>
            map_of row ''followedAt.text''
              = Some (case map_of d ''text'' of Some t \<Rightarrow> t | None \<Rightarrow> JStr '''') \<and>
            map_of row ''followedAt.accessibilityText''
              = Some (case map_of d ''accessibilityText'' of Some a \<Rightarrow> a | None \<Rightarrow> JStr ''''))
       \<and> (\<forall>v. field element ''followedAt'' = Some v \<and> \<not> is_dict v \<and> truthy v \<longrightarrow>
            map_of row ''followedAt.text'' = Some (JStr (py_str rp v)) \<and>
            map_of row ''followedAt.accessibilityText'' = Some (JStr ''''))
       \<and> (field element ''followedAt'' = None
            \<or> (\<exists>v. field element ''followedAt'' = Some v \<and> \<not> is_dict v \<and> \<not> truthy v) \<longrightarrow>
            map_of row ''followedAt.text'' = Some (JStr '''') \<and>
            map_of row ''followedAt.accessibilityText'' = Some (JStr ''''))"
proof -
  from built_row_followed_at[OF assms] obtain kvs where el: "element = JObj kvs"
    and t: "map_of row ''followedAt.text'' = Some (followed_text_of rp (map_of kvs ''followedAt''))"
    and a: "map_of row ''followedAt.accessibilityText''
            = Some (followed_accessibility_of (map_of kvs ''followedAt''))"
    by blast
  show ?thesis
    unfolding t a el
    by (auto simp: followed_text_of_def followed_accessibility_of_def split: json.splits)
qed

text \<open>
  The three cases at concrete elements: an object with a \<^verbatim>\<open>text\<close> entry only, a
  non-empty string, and no \<^verbatim>\<open>followedAt\<close> at all.
\<close>

theorem followed_at_columns_witness:
  "map_of (snd (build_follower_row_complete repr_unused element_without_profile [])) ''followedAt.text''
     = Some (JStr ''3d'')
   \<and> map_of (snd (build_follower_row_complete repr_unused element_without_profile []))
       ''followedAt.accessibilityText'' = Some (JStr '''')
   \<and> map_of (snd (build_follower_row_existing repr_unused element_followed_primitive [])) ''followedAt.text''
     = Some (JStr ''2 days ago'')
   \<and> map_of (snd (build_follower_row_existing repr_unused element_followed_primitive []))
       ''followedAt.accessibilityText'' = Some (JStr '''')
   \<and> map_of (snd (build_follower_row_complete repr_unused (JObj []) [])) ''followedAt.text'' = Some (JStr '''')
   \<and> map_of (snd (build_follower_row_complete repr_unused (JObj []) [])) ''followedAt.accessibilityText''
     = Some (JStr '''')"
proof -
  have b1: "build_follower_row_complete repr_unused element_without_profile []
            = ([], snd (build_follower_row_complete repr_unused element_without_profile []))"
    by (simp add: element_without_profile_def builder_defs)
  have f1: "field element_without_profile ''followedAt'' = Some (JObj [(''text'', JStr ''3d'')])"
    by (simp add: element_without_profile_def)
  have b2: "build_follower_row_existing repr_unused element_followed_primitive []
            = ([], snd (build_follower_row_existing repr_unused element_followed_primitive []))"
    by (simp add: element_followed_primitive_def builder_defs)
  have f2: "field element_followed_primitive ''followedAt'' = Some (JStr ''2 days ago'')
            \<and> \<not> is_dict (JStr ''2 days ago'') \<and> truthy (JStr ''2 days ago'')"
    by (simp add: element_followed_primitive_def)
  have b3: "build_follower_row_complete repr_unused (JObj []) []
            = ([], snd (build_follower_row_complete repr_unused (JObj []) []))"
    by (simp add: builder_defs)
  have f3: "field (JObj []) ''followedAt'' = None"
    by simp
  from followed_at_columns[OF disjI1[OF b1]] f1
  have w1: "map_of (snd (build_follower_row_complete repr_unused element_without_profile [])) ''followedAt.text''
     = Some (JStr ''3d'')
   \<and> map_of (snd (build_follower_row_complete repr_unused element_without_profile []))
       ''followedAt.accessibilityText'' = Some (JStr '''')"
    by simp
  from followed_at_columns[OF disjI2[OF b2]] f2
  have w2: "map_of (snd (build_follower_row_existing repr_unused element_followed_primitive [])) ''followedAt.text''
     = Some (JStr ''2 days ago'')
   \<and> map_of (snd (build_follower_row_existing repr_unused element_followed_primitive []))
       ''followedAt.accessibilityText'' = Some (JStr '''')"
    by simp
  from followed_at_columns[OF disjI1[OF b3]] f3
  have w3: "map_of (snd (build_follower_row_complete repr_unused (JObj []) [])) ''followedAt.text'' = Some (JStr '''')
   \<and> map_of (snd (build_follower_row_complete repr_unused (JObj []) [])) ''followedAt.accessibilityText''
     = Some (JStr '''')"
    by simp
  from w1 w2 w3 show ?thesis by blast
qed

text \<open>
  C7 as stated fails where "non-empty" and Python's truth value part: \<^verbatim>\<open>"followedAt": 0\<close>
  is a primitive whose string form is \<^verbatim>\<open>"0"\<close>, and both builders leave the text column
  empty.
\<close>

theorem followed_at_zero_counterexample:
  "field element_followed_zero ''followedAt'' = Some (JInt 0)
   \<and> py_str repr_unused (JInt 0) = ''0''
   \<and> map_of (snd (build_follower_row_complete repr_unused element_followed_zero [])) ''followedAt.text''
       = Some (JStr '''')
   \<and> map_of (snd (build_follower_row_existing repr_unused element_followed_zero [])) ''followedAt.text''
       = Some (JStr '''')"
  by code_simp

text \<open>
  \<^bold>\<open>C10\<close>. For every relationship element whose \<^verbatim>\<open>followerV2\<close> object holds a
  \<^verbatim>\<open>*profile\<close> reference that is present but counts as false (the empty string,
  \<^verbatim>\<open>null\<close>), both builders
  \<^item> make no lookup: the result is the same for any two profile mappings;
  \<^item> return what they return for the same element with the reference removed from
    \<^verbatim>\<open>followerV2\<close>;
  \<^item> build a row (nothing is printed) whose profile-derived columns are all empty strings.
\<close>

theorem falsy_reference_is_unknown_profile:
  assumes "map_of kvs ''followerV2'' = Some (JObj fv)"
    and "map_of fv ''*profile'' = Some ref"
    and "\<not> truthy ref"
  shows "build_follower_row_complete rp (JObj kvs) pm = build_follower_row_complete rp (JObj kvs) pm'
    \<and> build_follower_row_existing rp (JObj kvs) pm = build_follower_row_existing rp (JObj kvs) pm'
    \<and> build_follower_row_complete rp (JObj kvs) pm
        = build_follower_row_complete rp
            (JObj (AList.update ''followerV2'' (JObj (AList.delete ''*profile'' fv)) kvs)) pm
    \<and> build_follower_row_existing rp (JObj kvs) pm
        = build_follower_row_existing rp
            (JObj (AList.update ''followerV2'' (JObj (AList.delete ''*profile'' fv)) kvs)) pm
    \<and> fst (build_follower_row_complete rp (JObj kvs) pm) = []
    \<and> fst (build_follower_row_existing rp (JObj kvs) pm) = []
    \<and> map_of (snd (build_follower_row_complete rp (JObj kvs) pm)) ''firstName'' = Some (JStr '''')
    \<and> map_of (snd (build_follower_row_complete rp (JObj kvs) pm)) ''lastName'' = Some (JStr '''')
    \<and> map_of (snd (build_follower_row_complete rp (JObj kvs) pm)) ''headline'' = Some (JStr '''')
    \<and> map_of (snd (build_follower_row_complete rp (JObj kvs) pm)) ''publicIdentifier'' = Some (JStr '''')
    \<and> map_of (snd (build_follower_row_complete rp (JObj kvs) pm)) ''linkedinUrl'' = Some (JStr '''')
    \<and> map_of (snd (build_follower_row_existing rp (JObj kvs) pm)) ''firstName'' = Some (JStr '''')
    \<and> map_of (snd (build_follower_row_existing rp (JObj kvs) pm)) ''lastName'' = Some (JStr '''')
    \<and> map_of (snd (build_follower_row_existing rp (JObj kvs) pm)) ''headline'' = Some (JStr '''')
    \<and> map_of (snd (build_follower_row_existing rp (JObj kvs) pm)) ''publicIdentifier'' = Some (JStr '''')
    \<and> map_of (snd (build_follower_row_existing rp (JObj kvs) pm)) ''linkedinUrl'' = Some (JStr '''')"
proof -
  let ?kvs' = "AList.update ''followerV2'' (JObj (AList.delete ''*profile'' fv)) kvs"
  have u: "get_profile_urn (JObj kvs) = Inr ref"
    using assms(1,2) by (simp add: get_profile_urn_object)
  have "map_of ?kvs' ''followerV2'' = Some (JObj (AList.delete ''*profile'' fv))"
    by (simp add: update_conv')
  then have u': "get_profile_urn (JObj ?kvs') = Inr JNull"
    by (simp add: get_profile_urn_object delete_conv')
  have d: "get_profile_data pm ref = Inr (JObj [])" "get_profile_data pm' ref = Inr (JObj [])"
    "get_profile_data pm JNull = Inr (JObj [])"
    using assms(3) by (simp_all add: get_profile_data_falsy)
  have same: "map_of ?kvs' ''followedAt'' = map_of kvs ''followedAt''"
    "map_of ?kvs' ''entityUrn'' = map_of kvs ''entityUrn''"
    by (simp_all add: update_conv')
  show ?thesis
    by (simp add: build_follower_row_complete_def build_follower_row_existing_def
          try_complete_dict[OF u d(1)] try_complete_dict[OF u d(2)] try_complete_dict[OF u' d(3)]
          try_existing_dict[OF u d(1)] try_existing_dict[OF u d(2)] try_existing_dict[OF u' d(3)] same)
qed

text \<open>
  At the reference \<^verbatim>\<open>""\<close>, with a mapping that holds a profile under \<^verbatim>\<open>""\<close>: the
  profile is not picked up.
\<close>

theorem falsy_reference_witness:
  "map_of profiles_with_empty_key (KStr '''') \<noteq> None
   \<and> build_follower_row_complete repr_unused (JObj element_empty_reference) profiles_with_empty_key
       = build_follower_row_complete repr_unused (JObj element_empty_reference) []
   \<and> build_follower_row_existing repr_unused (JObj element_empty_reference) profiles_with_empty_key
       = build_follower_row_existing repr_unused (JObj element_empty_reference) []
   \<and> map_of (snd (build_follower_row_complete repr_unused (JObj element_empty_reference)
                     profiles_with_empty_key)) ''publicIdentifier'' = Some (JStr '''')
   \<and> map_of (snd (build_follower_row_existing repr_unused (JObj element_empty_reference)
                     profiles_with_empty_key)) ''publicIdentifier'' = Some (JStr '''')"
proof -
  have h1: "map_of element_empty_reference ''followerV2'' = Some (JObj [(''*profile'', JStr '''')])"
    by (simp add: element_empty_reference_def)
  have h2: "map_of [(''*profile'', JStr '''')] ''*profile'' = Some (JStr '''')"
    by simp
  have h3: "\<not> truthy (JStr '''')"
    by simp
  have "map_of profiles_with_empty_key (KStr '''') \<noteq> None"
    by (simp add: profiles_with_empty_key_def)
  with falsy_reference_is_unknown_profile[OF h1 h2 h3, of repr_unused profiles_with_empty_key "[]"]
  show ?thesis by blast
qed

text \<open>
  The missing-profile boundary in general: a reference that counts as true, is hashable
  and is not a key of the mapping. Both builders return a row with empty name, headline,
  public identifier and URL; the identifier column is the element's own \<^verbatim>\<open>entityUrn\<close>
  in \<^verbatim>\<open>linkedin_followers_complete.py\<close> and the empty string in
  \<^verbatim>\<open>process_existing_followers.py\<close>.
\<close>

lemma missing_profile_row:
  assumes "map_of kvs ''followerV2'' = Some (JObj fv)"
    and "map_of fv ''*profile'' = Some ref"
    and "truthy ref"
    and "py_hash ref = Inr k"
    and "map_of pm k = None"
  shows "fst (build_follower_row_complete rp (JObj kvs) pm) = []
    \<and> fst (build_follower_row_existing rp (JObj kvs) pm) = []
    \<and> map_of (snd (build_follower_row_complete rp (JObj kvs) pm)) ''firstName'' = Some (JStr '''')
    \<and> map_of (snd (build_follower_row_complete rp (JObj kvs) pm)) ''lastName'' = Some (JStr '''')
    \<and> map_of (snd (build_follower_row_complete rp (JObj kvs) pm)) ''headline'' = Some (JStr '''')
    \<and> map_of (snd (build_follower_row_complete rp (JObj kvs) pm)) ''publicIdentifier'' = Some (JStr '''')
    \<and> map_of (snd (build_follower_row_complete rp (JObj kvs) pm)) ''linkedinUrl'' = Some (JStr '''')
    \<and> map_of (snd (build_follower_row_complete rp (JObj kvs) pm)) ''entityUrn''
        = Some (case map_of kvs ''entityUrn'' of Some urn \<Rightarrow> urn | None \<Rightarrow> JStr '''')
    \<and> map_of (snd (build_follower_row_existing rp (JObj kvs) pm)) ''firstName'' = Some (JStr '''')
    \<and> map_of (snd (build_follower_row_existing rp (JObj kvs) pm)) ''lastName'' = Some (JStr '''')
    \<and> map_of (snd (build_follower_row_existing rp (JObj kvs) pm)) ''headline'' = Some (JStr '''')
    \<and> map_of (snd (build_follower_row_existing rp (JObj kvs) pm)) ''publicIdentifier'' = Some (JStr '''')
    \<and> map_of (snd (build_follower_row_existing rp (JObj kvs) pm)) ''linkedinUrl'' = Some (JStr '''')
    \<and> map_of (snd (build_follower_row_existing rp (JObj kvs) pm)) ''entityUrn'' = Some (JStr '''')"
proof -
  have u: "get_profile_urn (JObj kvs) = Inr ref"
    using assms(1,2) by (simp add: get_profile_urn_object)
  have d: "get_profile_data pm ref = Inr (JObj [])"
    using assms(3,4,5) by (simp add: get_profile_data_truthy)
  show ?thesis
    by (simp add: build_follower_row_complete_def build_follower_row_existing_def
          try_complete_dict[OF u d] try_existing_dict[OF u d])
qed

text \<open>
  \<^bold>\<open>C1\<close>. An element whose referenced resource identifier is absent from the mapping
  yields a row with empty name, headline and URL columns and a non-empty identifier taken
  from the element's own \<^verbatim>\<open>entityUrn\<close>. The builder of
  \<^verbatim>\<open>linkedin_followers_complete.py\<close> does that; the builder of
  \<^verbatim>\<open>process_existing_followers.py\<close> does not: at \<open>element_without_profile\<close>, which
  carries \<^verbatim>\<open>"entityUrn": "urn:li:fsd_follower:1"\<close>, its identifier column is empty.
\<close>

theorem existing_builder_drops_element_urn:
  "map_of (snd (build_follower_row_existing rp element_without_profile [])) ''entityUrn'' = Some (JStr '''')
   \<and> map_of (snd (build_follower_row_complete rp element_without_profile [])) ''entityUrn''
       = Some (JStr ''urn:li:fsd_follower:1'')"
  by (simp add: element_without_profile_def builder_defs)

section \<open>Claims about the relationship extractor\<close>

lemma find_follower_elements_dict_container:
  "map_of kvs CONTAINER = Some c \<Longrightarrow>
   (case find_follower_elements (JObj kvs) of Inl e \<Rightarrow> JArr [] | Inr es \<Rightarrow> es)
     = (case field c ''elements'' of None \<Rightarrow> JArr [] | Some es \<Rightarrow> es)"
  by (cases c) (simp_all add: find_follower_elements_def split: option.splits)

lemma find_follower_elements_spec:
  "(case find_follower_elements main_data of Inl e \<Rightarrow> JArr [] | Inr es \<Rightarrow> es)
     = container_elements main_data"
proof (cases main_data)
  case (JObj kvs)
  show ?thesis
  proof (cases "map_of kvs CONTAINER")
    case None
    with JObj show ?thesis
      by (simp add: find_follower_elements_def container_elements_def)
  next
    case (Some c)
    with JObj find_follower_elements_dict_container[OF Some] show ?thesis
      by (simp add: container_elements_def)
  qed
qed (simp_all add: find_follower_elements_def container_elements_def)

lemma navigate_dict_no_data:
  "map_of kvs ''data'' = None \<Longrightarrow> navigate_to_main_data (JObj kvs) = Inr (JObj kvs)"
  by (simp add: navigate_to_main_data_def)

lemma navigate_dict_data:
  "map_of kvs ''data'' = Some d \<Longrightarrow>
   navigate_to_main_data (JObj kvs) =
     bind_err (py_contains ''data'' d) (\<lambda>has. if has then py_getitem d ''data'' else Inr d)"
  by (cases "py_contains ''data'' d") (simp_all add: navigate_to_main_data_def)

lemma navigate_spec_Inr:
  "navigate_to_main_data page_data = Inr m \<Longrightarrow> m = main_data_of page_data"
proof (cases page_data)
  case (JObj kvs)
  assume r: "navigate_to_main_data page_data = Inr m"
  show ?thesis
  proof (cases "map_of kvs ''data''")
    case None
    with JObj r show ?thesis by (auto simp: navigate_dict_no_data main_data_of_def)
  next
    case (Some d)
    with JObj r show ?thesis
      by (cases d) (auto simp: navigate_dict_data main_data_of_def split: option.splits if_splits)
  qed
qed (auto simp: navigate_to_main_data_def main_data_of_def split: if_splits)

lemma navigate_spec_Inl:
  "navigate_to_main_data page_data = Inl e \<Longrightarrow> container_elements (main_data_of page_data) = JArr []"
proof (cases page_data)
  case (JObj kvs)
  assume r: "navigate_to_main_data page_data = Inl e"
  show ?thesis
  proof (cases "map_of kvs ''data''")
    case None
    with JObj r show ?thesis by (simp add: navigate_dict_no_data)
  next
    case (Some d)
    with JObj r show ?thesis
      by (cases d)
         (auto simp: navigate_dict_data main_data_of_def container_elements_def
               split: option.splits if_splits)
  qed
qed (auto simp: navigate_to_main_data_def main_data_of_def container_elements_def split: if_splits)

text \<open>
  \<^bold>\<open>C3\<close>, as the code has it. For every parsed snapshot the relationship extractor
  examines one object only: \<^verbatim>\<open>data.data\<close> when the snapshot has a \<^verbatim>\<open>data\<close> entry that
  has a \<^verbatim>\<open>data\<close> entry, else \<^verbatim>\<open>data\<close> when the snapshot has that entry, else the
  snapshot itself. It returns the \<^verbatim>\<open>elements\<close> of the container in that object, and the
  empty sequence when that object has no container or the container has no \<^verbatim>\<open>elements\<close>.
  It never raises: either nothing is printed, or one diagnostic is and the result is the
  empty sequence. A shallower depth is not tried when the deepest wrapper lacks the
  container.
\<close>

theorem extract_elements_examines_one_depth:
  "snd (extract_elements_from_page page_data) = container_elements (main_data_of page_data)
   \<and> (fst (extract_elements_from_page page_data) = []
      \<or> (\<exists>e. extract_elements_from_page page_data = ([ErrorExtractingElements e], JArr [])))"
proof (cases "navigate_to_main_data page_data")
  case (Inl e)
  with navigate_spec_Inl[OF Inl] show ?thesis
    by (simp add: extract_elements_from_page_def extract_elements_try_def)
next
  case (Inr m)
  with navigate_spec_Inr[OF Inr] find_follower_elements_spec[of m] show ?thesis
    by (cases "find_follower_elements m")
       (auto simp: extract_elements_from_page_def extract_elements_try_def)
qed

text \<open>On the spec's example page the elements are found two levels deep.\<close>

theorem extract_elements_witness:
  "extract_elements_from_page page_alice = ([], JArr [alice_element])"
proof -
  have "container_elements (main_data_of page_alice) = JArr [alice_element]"
    by (simp add: page_alice_def main_data_of_def container_elements_def)
  with extract_elements_examines_one_depth[of page_alice] show ?thesis
    by (cases "extract_elements_from_page page_alice") auto
qed

text \<open>
  C3 as stated fails: in \<open>page_container_beside_wrapper\<close> the first depth whose object
  contains the container is the unwrapped one (\<^verbatim>\<open>data.data\<close> does not exist, \<^verbatim>\<open>data\<close> is
  \<^verbatim>\<open>{}\<close>), with one element, and the extractor returns the empty sequence.
\<close>

theorem container_beside_wrapper_counterexample:
  "field page_container_beside_wrapper ''data'' = Some (JObj [])
   \<and> field (JObj []) ''data'' = None
   \<and> field (JObj []) CONTAINER = None
   \<and> field page_container_beside_wrapper CONTAINER = Some (JObj [(''elements'', JArr [JObj []])])
   \<and> extract_elements_from_page page_container_beside_wrapper = ([], JArr [])"
  by code_simp

section \<open>Dicts, the entity extractor and the loop\<close>

lemma dict_update_Nil [simp]: "dict_update d [] = d"
  by (simp add: dict_update_def)

lemma dict_update_Cons: "dict_update d ((k, v) # other) = dict_update (AList.update k v d) other"
  by (simp add: dict_update_def)

lemma keys_dict_update: "fst ` set (dict_update d other) = fst ` set d \<union> fst ` set other"
proof (induction other arbitrary: d)
  case Nil
  show ?case by simp
next
  case (Cons kv other)
  obtain k v where kv: "kv = (k, v)" by (cases kv)
  show ?case
    unfolding kv dict_update_Cons Cons.IH
    by (auto simp: dom_update)
qed

lemma map_of_dict_update:
  "distinct (map fst other) \<Longrightarrow> map_of (dict_update d other) = map_of d ++ map_of other"
proof (induction other arbitrary: d)
  case Nil
  show ?case by simp
next
  case (Cons kv other)
  obtain k v where kv: "kv = (k, v)" by (cases kv)
  from Cons.prems have nk: "k \<notin> fst ` set other" and dist: "distinct (map fst other)"
    by (auto simp: kv)
  have none: "map_of other k = None"
    using nk by (simp add: map_of_eq_None_iff)
  show ?case
    unfolding kv dict_update_Cons Cons.IH[OF dist]
    using none by (auto simp: update_conv' fun_eq_iff map_add_def split: option.splits)
qed

lemma distinct_dict_update: "distinct (map fst d) \<Longrightarrow> distinct (map fst (dict_update d other))"
proof (induction other arbitrary: d)
  case Nil
  then show ?case by simp
next
  case (Cons kv other)
  obtain k v where kv: "kv = (k, v)" by (cases kv)
  show ?case
    unfolding kv dict_update_Cons
    by (rule Cons.IH) (simp add: distinct_update Cons.prems)
qed

lemma dicts_only_update: "dicts_only pm \<Longrightarrow> is_dict v \<Longrightarrow> dicts_only (AList.update k v pm)"
  by (induction pm) (auto simp: dicts_only_def)

lemma dicts_only_dict_update: "dicts_only d \<Longrightarrow> dicts_only other \<Longrightarrow> dicts_only (dict_update d other)"
proof (induction other arbitrary: d)
  case Nil
  then show ?case by simp
next
  case (Cons kv other)
  obtain k v where kv: "kv = (k, v)" by (cases kv)
  from Cons.prems(2) have v: "is_dict v" and rest: "dicts_only other"
    by (simp_all add: kv dicts_only_def)
  show ?case
    unfolding kv dict_update_Cons
    by (rule Cons.IH) (simp_all add: dicts_only_update Cons.prems(1) v rest)
qed

lemma dicts_only_lookup: "dicts_only pm \<Longrightarrow> map_of pm k = Some v \<Longrightarrow> \<exists>p. v = JObj p"
  by (induction pm) (auto simp: dicts_only_def is_dict_iff split: if_splits)

lemma py_getitem_Inr_dict: "py_getitem c k = Inr v \<Longrightarrow> is_dict c"
  by (cases c) simp_all

lemma extract_profiles_loop_inv:
  "extract_profiles_loop items acc = Inr profiles \<Longrightarrow>
   distinct (map fst acc) \<Longrightarrow> dicts_only acc \<Longrightarrow>
   distinct (map fst profiles) \<and> dicts_only profiles"
proof (induction items arbitrary: acc)
  case Nil
  then show ?case by simp
next
  case (Cons profile rest)
  from Cons.prems(1) obtain has_urn has_both
    where h1: "py_contains ''entityUrn'' profile = Inr has_urn"
      and h2: "(if has_urn then py_contains ''publicIdentifier'' profile else Inr False) = Inr has_both"
      and h3: "(if has_both then
                  bind_err (py_getitem profile ''entityUrn'') (\<lambda>urn.
                  bind_err (dict_set acc urn profile) (\<lambda>profiles'.
                    extract_profiles_loop rest profiles'))
                else extract_profiles_loop rest acc) = Inr profiles"
    by (auto simp: bind_err_eq_Inr)
  show ?case
  proof (cases has_both)
    case False
    with h3 Cons.IH[of acc] Cons.prems(2,3) show ?thesis by simp
  next
    case True
    with h3 obtain urn acc' where g: "py_getitem profile ''entityUrn'' = Inr urn"
      and s: "dict_set acc urn profile = Inr acc'"
      and r: "extract_profiles_loop rest acc' = Inr profiles"
      by (auto simp: bind_err_eq_Inr)
    from s obtain k where acc': "acc' = AList.update k profile acc"
      by (auto simp: dict_set_def bind_err_eq_Inr)
    have "distinct (map fst acc')" "dicts_only acc'"
      using Cons.prems(2,3) py_getitem_Inr_dict[OF g]
      by (simp_all add: acc' distinct_update dicts_only_update)
    with Cons.IH[OF r] show ?thesis by simp
  qed
qed

lemma extract_profiles_inv:
  assumes "extract_profiles_from_page page_data = Inr profiles"
  shows "distinct (map fst profiles) \<and> dicts_only profiles"
proof -
  have "profiles = [] \<or> (\<exists>items. extract_profiles_loop items [] = Inr profiles)"
    using assms
    by (auto simp: extract_profiles_from_page_def bind_err_eq_Inr split: if_splits)
  then show ?thesis
    using extract_profiles_loop_inv[of _ "[]" profiles]
    by (auto simp: dicts_only_def)
qed

lemma profiles_in_inv: "distinct (map fst (profiles_in rd f)) \<and> dicts_only (profiles_in rd f)"
  using extract_profiles_inv[of _ "profiles_in rd f"]
  by (auto simp: profiles_in_def dicts_only_def split: option.splits sum.splits)

lemma build_rows_rows:
  "snd (build_rows b items pm) = filter (\<lambda>row. row \<noteq> []) (map (\<lambda>e. snd (b e pm)) items)"
  by (induction items) (auto simp: split_def Let_def)

lemma build_rows_printed:
  "fst (build_rows b items pm) = concat (map (\<lambda>e. fst (b e pm)) items)"
  by (induction items) (auto simp: split_def Let_def)

lemma length_build_rows:
  "length (snd (build_rows b items pm)) = length (filter (\<lambda>e. snd (b e pm) \<noteq> []) items)"
  by (induction items) (auto simp: split_def Let_def)

lemma get_profile_data_dicts_only:
  assumes "dicts_only pm"
  shows "(\<exists>p. get_profile_data pm urn = Inr (JObj p))
         \<longleftrightarrow> (if truthy urn then (case py_hash urn of Inl e \<Rightarrow> False | Inr k \<Rightarrow> True) else True)"
proof (cases "truthy urn")
  case False
  then show ?thesis by (simp add: get_profile_data_falsy)
next
  case True
  show ?thesis
  proof (cases "py_hash urn")
    case (Inl e)
    with True show ?thesis by (simp add: get_profile_data_def dict_get_def)
  next
    case (Inr k)
    have "\<exists>p. (case map_of pm k of Some v \<Rightarrow> v | None \<Rightarrow> JObj []) = JObj p"
      using dicts_only_lookup[OF assms] by (cases "map_of pm k") auto
    with True Inr show ?thesis by (simp add: get_profile_data_truthy)
  qed
qed

lemma complete_builds_iff:
  assumes "dicts_only pm"
  shows "snd (build_follower_row_complete rp element pm) \<noteq> [] \<longleftrightarrow> buildable element"
proof
  assume "snd (build_follower_row_complete rp element pm) \<noteq> []"
  then obtain row where "build_follower_row_try_complete rp element pm = Inr row"
    by (cases "build_follower_row_try_complete rp element pm")
       (simp_all add: build_follower_row_complete_def)
  then obtain kvs urn p where e: "element = JObj kvs" and u: "get_profile_urn element = Inr urn"
    and d: "get_profile_data pm urn = Inr (JObj p)"
    using try_complete_Inr by blast
  from d get_profile_data_dicts_only[OF assms, of urn] e u show "buildable element"
    by (auto simp: buildable_def)
next
  assume b: "buildable element"
  then obtain kvs where e: "element = JObj kvs"
    by (auto simp: buildable_def is_dict_iff)
  from b e obtain urn where u: "get_profile_urn (JObj kvs) = Inr urn"
    by (cases "get_profile_urn (JObj kvs)") (simp_all add: buildable_def)
  from b e u
  have h: "if truthy urn then (case py_hash urn of Inl e \<Rightarrow> False | Inr k \<Rightarrow> True) else True"
    by (simp add: buildable_def)
  from h get_profile_data_dicts_only[OF assms, of urn]
  obtain p where d: "get_profile_data pm urn = Inr (JObj p)" by blast
  show "snd (build_follower_row_complete rp element pm) \<noteq> []"
    by (simp add: e build_follower_row_complete_def try_complete_dict[OF u d])
qed

lemma existing_builds_iff:
  assumes "dicts_only pm"
  shows "snd (build_follower_row_existing rp element pm) \<noteq> [] \<longleftrightarrow> buildable element"
proof
  assume "snd (build_follower_row_existing rp element pm) \<noteq> []"
  then obtain row where "build_follower_row_try_existing rp element pm = Inr row"
    by (cases "build_follower_row_try_existing rp element pm")
       (simp_all add: build_follower_row_existing_def)
  then obtain kvs urn p where e: "element = JObj kvs" and u: "get_profile_urn element = Inr urn"
    and d: "get_profile_data pm urn = Inr (JObj p)"
    using try_existing_Inr by blast
  from d get_profile_data_dicts_only[OF assms, of urn] e u show "buildable element"
    by (auto simp: buildable_def)
next
  assume b: "buildable element"
  then obtain kvs where e: "element = JObj kvs"
    by (auto simp: buildable_def is_dict_iff)
  from b e obtain urn where u: "get_profile_urn (JObj kvs) = Inr urn"
    by (cases "get_profile_urn (JObj kvs)") (simp_all add: buildable_def)
  from b e u
  have h: "if truthy urn then (case py_hash urn of Inl e \<Rightarrow> False | Inr k \<Rightarrow> True) else True"
    by (simp add: buildable_def)
  from h get_profile_data_dicts_only[OF assms, of urn]
  obtain p where d: "get_profile_data pm urn = Inr (JObj p)" by blast
  show "snd (build_follower_row_existing rp element pm) \<noteq> []"
    by (simp add: e build_follower_row_existing_def try_existing_dict[OF u d])
qed

lemma py_len_iter: "py_len c = Inr n \<Longrightarrow> \<exists>items. py_iter c = Inr items \<and> length items = n"
  by (cases c) auto

lemma process_page_unreadable:
  "rd f = None \<Longrightarrow>
   process_page b rd f st = Inr (st\<lparr>printed := printed st @ [Processing f, ErrorReading f]\<rparr>)"
  by (simp add: process_page_def)

lemma process_page_Some:
  assumes "rd f = Some page_data"
  shows "process_page b rd f st =
    (case extract_profiles_from_page page_data of
       Inl e \<Rightarrow> Inl (printed st @ [Processing f], e)
     | Inr page_profiles \<Rightarrow>
        (case py_len (snd (extract_elements_from_page page_data)) of
           Inl e \<Rightarrow> Inl (printed st @ [Processing f, FoundProfiles (length page_profiles)]
                          @ fst (extract_elements_from_page page_data), e)
         | Inr n \<Rightarrow>
            Inr \<lparr>all_rows = all_rows st
                     @ snd (build_rows b (elements_in rd f) (dict_update (all_profiles st) page_profiles)),
                 all_profiles = dict_update (all_profiles st) page_profiles,
                 printed = printed st @ [Processing f, FoundProfiles (length page_profiles)]
                     @ fst (extract_elements_from_page page_data) @ [FoundElements n]
                     @ fst (build_rows b (elements_in rd f) (dict_update (all_profiles st) page_profiles))\<rparr>))"
proof (cases "extract_profiles_from_page page_data")
  case (Inl e)
  with assms show ?thesis by (simp add: process_page_def)
next
  case (Inr page_profiles)
  show ?thesis
  proof (cases "py_len (snd (extract_elements_from_page page_data))")
    case (Inl e)
    with Inr assms show ?thesis by (simp add: process_page_def split_def Let_def)
  next
    case n: (Inr n)
    from py_len_iter[OF n] obtain items
      where it: "py_iter (snd (extract_elements_from_page page_data)) = Inr items" by blast
    then have el: "elements_in rd f = items"
      by (simp add: elements_in_def assms)
    from Inr n assms it show ?thesis
      by (simp add: process_page_def split_def Let_def el)
  qed
qed

lemma process_page_profiles:
  assumes "process_page b rd f st = Inr st'"
  shows "all_profiles st' = dict_update (all_profiles st) (profiles_in rd f)"
proof (cases "rd f")
  case None
  with assms show ?thesis
    by (auto simp: process_page_unreadable profiles_in_def)
next
  case (Some page_data)
  with assms show ?thesis
    by (auto simp: process_page_Some[of rd f, OF Some] profiles_in_def split: sum.splits)
qed

lemma process_page_rows:
  assumes "process_page b rd f st = Inr st'"
  shows "all_rows st' = all_rows st @ snd (build_rows b (elements_in rd f) (all_profiles st'))"
proof (cases "rd f")
  case None
  with assms show ?thesis
    by (auto simp: process_page_unreadable elements_in_def)
next
  case (Some page_data)
  with assms show ?thesis
    by (auto simp: process_page_Some[of rd f, OF Some] split: sum.splits)
qed

lemma process_files_append:
  "process_files b rd (xs @ ys) st = bind_err (process_files b rd xs st) (process_files b rd ys)"
proof (induction xs arbitrary: st)
  case Nil
  show ?case by simp
next
  case (Cons f xs)
  show ?case
    by (cases "process_page b rd f st") (simp_all add: Cons.IH)
qed

lemma process_files_snoc:
  "process_files b rd (xs @ [f]) st = bind_err (process_files b rd xs st) (process_page b rd f)"
  by (cases "process_files b rd xs st") (simp_all add: process_files_append bind_err_def split: sum.splits)

lemma process_files_prefix:
  assumes "process_files b rd files st = Inr st'" and "k \<le> length files"
  shows "\<exists>st_k. process_files b rd (take k files) st = Inr st_k"
proof -
  have "process_files b rd (take k files @ drop k files) st = Inr st'"
    using assms(1) by simp
  then show ?thesis
    unfolding process_files_append by (auto simp: bind_err_eq_Inr)
qed

lemma process_files_map_of:
  assumes "process_files b rd files st = Inr st'"
  shows "map_of (all_profiles st')
         = foldl (++) (map_of (all_profiles st)) (map (\<lambda>f. map_of (profiles_in rd f)) files)"
  using assms
proof (induction files arbitrary: st' rule: rev_induct)
  case Nil
  then show ?case by simp
next
  case (snoc f files)
  from snoc.prems obtain mid where m: "process_files b rd files st = Inr mid"
    and p: "process_page b rd f mid = Inr st'"
    by (auto simp: process_files_snoc bind_err_eq_Inr)
  have "map_of (all_profiles st') = map_of (all_profiles mid) ++ map_of (profiles_in rd f)"
    using process_page_profiles[OF p] profiles_in_inv[of rd f]
    by (simp add: map_of_dict_update)
  with snoc.IH[OF m] show ?case by simp
qed

lemma dom_foldl_map_add: "dom (foldl (++) m ms) = dom m \<union> (\<Union>x\<in>set ms. dom x)"
  by (induction ms arbitrary: m) auto

lemma foldl_map_add_latest:
  assumes "i < length ms" and "key \<in> dom (ms ! i)"
    and "\<forall>j. i < j \<and> j < length ms \<longrightarrow> key \<notin> dom (ms ! j)"
  shows "foldl (++) m ms key = (ms ! i) key"
  using assms
proof (induction ms rule: rev_induct)
  case Nil
  then show ?case by simp
next
  case (snoc x ms)
  show ?case
  proof (cases "i = length ms")
    case True
    with snoc.prems(2) show ?thesis
      by (simp add: map_add_dom_app_simps)
  next
    case False
    with snoc.prems(1) have i: "i < length ms" by simp
    have notx: "key \<notin> dom x"
      using snoc.prems(3)[rule_format, of "length ms"] i by simp
    have "foldl (++) m ms key = (ms ! i) key"
    proof (rule snoc.IH[OF i])
      show "key \<in> dom (ms ! i)" using snoc.prems(2) i by (simp add: nth_append)
      show "\<forall>j. i < j \<and> j < length ms \<longrightarrow> key \<notin> dom (ms ! j)"
        using snoc.prems(3) by (auto simp: nth_append split: if_splits)
    qed
    with notx i show ?thesis
      by (simp add: map_add_dom_app_simps nth_append)
  qed
qed

lemma dom_map_of_keys: "dom (map_of al) = fst ` set al"
  by (simp add: dom_map_of_conv_image_fst)

lemma process_files_keys:
  assumes "process_files b rd files st = Inr st'"
  shows "fst ` set (all_profiles st')
         = fst ` set (all_profiles st) \<union> (\<Union>f\<in>set files. fst ` set (profiles_in rd f))"
proof -
  have "dom (map_of (all_profiles st'))
        = dom (map_of (all_profiles st)) \<union> (\<Union>f\<in>set files. dom (map_of (profiles_in rd f)))"
    unfolding process_files_map_of[OF assms] dom_foldl_map_add by auto
  then show ?thesis by (simp only: dom_map_of_keys)
qed

lemma process_files_latest:
  assumes "process_files b rd files st = Inr st'"
    and "i < length files"
    and "key \<in> fst ` set (profiles_in rd (files ! i))"
    and "\<forall>j. i < j \<and> j < length files \<longrightarrow> key \<notin> fst ` set (profiles_in rd (files ! j))"
  shows "map_of (all_profiles st') key = map_of (profiles_in rd (files ! i)) key"
proof -
  let ?ms = "map (\<lambda>f. map_of (profiles_in rd f)) files"
  have "foldl (++) (map_of (all_profiles st)) ?ms key = (?ms ! i) key"
  proof (rule foldl_map_add_latest)
    show "i < length ?ms" using assms(2) by simp
    show "key \<in> dom (?ms ! i)" using assms(2,3) by (simp add: dom_map_of_keys)
    show "\<forall>j. i < j \<and> j < length ?ms \<longrightarrow> key \<notin> dom (?ms ! j)"
      using assms(4) by (auto simp: dom_map_of_keys)
  qed
  then show ?thesis
    using assms(2) by (simp add: process_files_map_of[OF assms(1)])
qed

section \<open>Claims about the page-set orchestrator\<close>

text \<open>
  \<^bold>\<open>C6\<close>. Take a run of the page-processing loop that starts from an empty mapping and
  completes. After every number \<open>k\<close> of snapshots processed, the loop has a state whose
  mapping
  \<^item> has as keys exactly the keys extracted from the first \<open>k\<close> snapshots;
  \<^item> maps each key to the attributes of the latest of these snapshots that defines it;
  \<^item> has only keys that are still there at the end of the run (a key is never removed).
\<close>

theorem cumulative_profile_mapping:
  assumes "process_files build rd files st0 = Inr st" and "all_profiles st0 = []"
  shows "\<forall>k\<le>length files. \<exists>st_k.
      process_files build rd (take k files) st0 = Inr st_k
    \<and> fst ` set (all_profiles st_k) = (\<Union>f\<in>set (take k files). fst ` set (profiles_in rd f))
    \<and> (\<forall>i<k. \<forall>key.
          key \<in> fst ` set (profiles_in rd (files ! i))
          \<and> (\<forall>j. i < j \<and> j < k \<longrightarrow> key \<notin> fst ` set (profiles_in rd (files ! j)))
          \<longrightarrow> map_of (all_profiles st_k) key = map_of (profiles_in rd (files ! i)) key)
    \<and> fst ` set (all_profiles st_k) \<subseteq> fst ` set (all_profiles st)"
proof (intro allI impI)
  fix k assume k: "k \<le> length files"
  from process_files_prefix[OF assms(1) k] obtain st_k
    where run: "process_files build rd (take k files) st0 = Inr st_k" by blast
  have keys: "fst ` set (all_profiles st_k) = (\<Union>f\<in>set (take k files). fst ` set (profiles_in rd f))"
    using process_files_keys[OF run] assms(2) by simp
  have latest: "\<forall>i<k. \<forall>key.
          key \<in> fst ` set (profiles_in rd (files ! i))
          \<and> (\<forall>j. i < j \<and> j < k \<longrightarrow> key \<notin> fst ` set (profiles_in rd (files ! j)))
          \<longrightarrow> map_of (all_profiles st_k) key = map_of (profiles_in rd (files ! i)) key"
  proof (intro allI impI, elim conjE)
    fix i key
    assume i: "i < k" and key: "key \<in> fst ` set (profiles_in rd (files ! i))"
      and later: "\<forall>j. i < j \<and> j < k \<longrightarrow> key \<notin> fst ` set (profiles_in rd (files ! j))"
    have "map_of (all_profiles st_k) key = map_of (profiles_in rd (take k files ! i)) key"
    proof (rule process_files_latest[OF run])
      show "i < length (take k files)" using i k by simp
      show "key \<in> fst ` set (profiles_in rd (take k files ! i))" using key i by simp
      show "\<forall>j. i < j \<and> j < length (take k files)
              \<longrightarrow> key \<notin> fst ` set (profiles_in rd (take k files ! j))"
        using later k by simp
    qed
    then show "map_of (all_profiles st_k) key = map_of (profiles_in rd (files ! i)) key"
      using i by simp
  qed
  have "process_files build rd (take k files @ drop k files) st0 = Inr st"
    using assms(1) by simp
  then have "process_files build rd (drop k files) st_k = Inr st"
    unfolding process_files_append run by simp
  from process_files_keys[OF this]
  have mono: "fst ` set (all_profiles st_k) \<subseteq> fst ` set (all_profiles st)" by blast
  from run keys latest mono
  show "\<exists>st_k.
      process_files build rd (take k files) st0 = Inr st_k
    \<and> fst ` set (all_profiles st_k) = (\<Union>f\<in>set (take k files). fst ` set (profiles_in rd f))
    \<and> (\<forall>i<k. \<forall>key.
          key \<in> fst ` set (profiles_in rd (files ! i))
          \<and> (\<forall>j. i < j \<and> j < k \<longrightarrow> key \<notin> fst ` set (profiles_in rd (files ! j)))
          \<longrightarrow> map_of (all_profiles st_k) key = map_of (profiles_in rd (files ! i)) key)
    \<and> fst ` set (all_profiles st_k) \<subseteq> fst ` set (all_profiles st)"
    by blast
qed

text \<open>
  On the example directory: after the first snapshot \<^verbatim>\<open>urn:1\<close> has the attributes of
  page 0, after all four those of page 2, the latest page that defines it.
\<close>

theorem cumulative_profile_mapping_witness:
  "all_profiles initial_state = []
   \<and> map_of (all_profiles (projr (process_files (build_follower_row_existing repr_unused) example_read
              (take 1 (page_files example_dir)) initial_state))) (KStr ''urn:1'') = Some alice_profile
   \<and> map_of (all_profiles (projr (process_files (build_follower_row_existing repr_unused) example_read
              (take 4 (page_files example_dir)) initial_state))) (KStr ''urn:1'') = Some alice_profile_renamed"
proof -
  let ?b = "build_follower_row_existing repr_unused"
  let ?files = "page_files example_dir"
  have run: "process_files ?b example_read ?files initial_state
             = Inr (projr (process_files ?b example_read ?files initial_state))"
    by code_simp
  have init: "all_profiles initial_state = []"
    by (simp add: initial_state_def)
  have len: "length ?files = 4"
    by code_simp
  note main = cumulative_profile_mapping[OF run init, rule_format]
  from main[of 1] len obtain s1
    where r1: "process_files ?b example_read (take 1 ?files) initial_state = Inr s1"
      and l1: "\<forall>i<1. \<forall>key.
          key \<in> fst ` set (profiles_in example_read (?files ! i))
          \<and> (\<forall>j. i < j \<and> j < 1 \<longrightarrow> key \<notin> fst ` set (profiles_in example_read (?files ! j)))
          \<longrightarrow> map_of (all_profiles s1) key = map_of (profiles_in example_read (?files ! i)) key"
    by auto
  from main[of 4] len obtain s4
    where r4: "process_files ?b example_read (take 4 ?files) initial_state = Inr s4"
      and l4: "\<forall>i<4. \<forall>key.
          key \<in> fst ` set (profiles_in example_read (?files ! i))
          \<and> (\<forall>j. i < j \<and> j < 4 \<longrightarrow> key \<notin> fst ` set (profiles_in example_read (?files ! j)))
          \<longrightarrow> map_of (all_profiles s4) key = map_of (profiles_in example_read (?files ! i)) key"
    by auto
  have k0: "KStr ''urn:1'' \<in> fst ` set (profiles_in example_read (?files ! 0))"
    by code_simp
  have v0: "map_of (profiles_in example_read (?files ! 0)) (KStr ''urn:1'') = Some alice_profile"
    by code_simp
  have k2: "KStr ''urn:1'' \<in> fst ` set (profiles_in example_read (?files ! 2))"
    by code_simp
  have k3: "KStr ''urn:1'' \<notin> fst ` set (profiles_in example_read (?files ! 3))"
    by code_simp
  have v2: "map_of (profiles_in example_read (?files ! 2)) (KStr ''urn:1'') = Some alice_profile_renamed"
    by code_simp
  have only3: "\<And>j::nat. 2 < j \<Longrightarrow> j < 4 \<Longrightarrow> j = 3"
    by arith
  have none1: "\<forall>j::nat. 0 < j \<and> j < 1
      \<longrightarrow> KStr ''urn:1'' \<notin> fst ` set (profiles_in example_read (?files ! j))"
    by simp
  have none4: "\<forall>j::nat. 2 < j \<and> j < 4
      \<longrightarrow> KStr ''urn:1'' \<notin> fst ` set (profiles_in example_read (?files ! j))"
    using only3 k3 by blast
  have "(0::nat) < 1" by simp
  with l1 k0 none1
  have "map_of (all_profiles s1) (KStr ''urn:1'')
        = map_of (profiles_in example_read (?files ! 0)) (KStr ''urn:1'')"
    by blast
  then have "map_of (all_profiles s1) (KStr ''urn:1'') = Some alice_profile"
    by (simp only: v0)
  moreover
  have "(2::nat) < 4" by simp
  with l4 k2 none4
  have "map_of (all_profiles s4) (KStr ''urn:1'')
        = map_of (profiles_in example_read (?files ! 2)) (KStr ''urn:1'')"
    by blast
  then have "map_of (all_profiles s4) (KStr ''urn:1'') = Some alice_profile_renamed"
    by (simp only: v2)
  ultimately show ?thesis
    using init r1 r4 by simp
qed

lemma dicts_only_Nil [simp]: "dicts_only []"
  by (simp add: dicts_only_def)

lemma process_page_dicts_only:
  assumes "process_page b rd f st = Inr st'" and "dicts_only (all_profiles st)"
  shows "dicts_only (all_profiles st')"
  using process_page_profiles[OF assms(1)] assms(2) profiles_in_inv[of rd f]
  by (simp add: dicts_only_dict_update)

lemma process_page_rows_count:
  assumes b: "\<And>e pm. dicts_only pm \<Longrightarrow> (snd (b e pm) \<noteq> []) = buildable e"
    and run: "process_page b rd f st = Inr st'"
    and inv: "dicts_only (all_profiles st)"
  shows "length (all_rows st') = length (all_rows st) + length (filter buildable (elements_in rd f))"
proof -
  have "dicts_only (all_profiles st')"
    using process_page_dicts_only[OF run inv] .
  then show ?thesis
    by (simp add: process_page_rows[OF run] length_build_rows b)
qed

lemma process_files_rows_count:
  assumes b: "\<And>e pm. dicts_only pm \<Longrightarrow> (snd (b e pm) \<noteq> []) = buildable e"
    and run: "process_files b rd files st = Inr st'"
    and inv: "dicts_only (all_profiles st)"
  shows "length (all_rows st')
         = length (all_rows st) + (\<Sum>f\<leftarrow>files. length (filter buildable (elements_in rd f)))"
  using run inv
proof (induction files arbitrary: st)
  case Nil
  then show ?case by simp
next
  case (Cons f files)
  from Cons.prems(1) obtain mid where p: "process_page b rd f st = Inr mid"
    and r: "process_files b rd files mid = Inr st'"
    by (auto simp: bind_err_eq_Inr)
  have "dicts_only (all_profiles mid)"
    using process_page_dicts_only[OF p Cons.prems(2)] .
  from Cons.IH[OF r this] process_page_rows_count[OF b p Cons.prems(2)]
  show ?case by simp
qed

lemma sum_all_buildable:
  "list_all (\<lambda>f. list_all buildable (elements_in rd f)) files \<Longrightarrow>
   (\<Sum>f\<leftarrow>files. length (filter buildable (elements_in rd f)))
     = (\<Sum>f\<leftarrow>files. length (elements_in rd f))"
proof (induction files)
  case Nil
  show ?case by simp
next
  case (Cons f files)
  from Cons.prems have "filter buildable (elements_in rd f) = elements_in rd f"
    by (simp add: list_all_iff)
  with Cons show ?case by simp
qed

lemma downloaded_rows_count:
  assumes "process_downloaded_pages rp dir rd = (out, Inr rows)"
  shows "length rows = (\<Sum>f\<leftarrow>page_files dir. length (filter buildable (elements_in rd f)))"
proof (cases "page_files dir = []")
  case True
  with assms show ?thesis by (auto simp: process_downloaded_pages_def)
next
  case False
  let ?st0 = "\<lparr>all_rows = [], all_profiles = [],
               printed = [ProcessingDownloaded (length (page_files dir))]\<rparr>"
  from assms False obtain st
    where run: "process_files (build_follower_row_complete rp) rd (page_files dir) ?st0 = Inr st"
      and rows: "rows = all_rows st"
    by (auto simp: process_downloaded_pages_def Let_def split: sum.splits prod.splits)
  from process_files_rows_count[OF complete_builds_iff run] show ?thesis
    by (simp add: rows)
qed

lemma existing_rows_count:
  assumes "process_existing_pages rp dir rd = (out, Inr rows)"
  shows "length rows = (\<Sum>f\<leftarrow>page_files dir. length (filter buildable (elements_in rd f)))"
proof (cases "page_files dir = []")
  case True
  with assms show ?thesis by (auto simp: process_existing_pages_def)
next
  case False
  let ?st0 = "\<lparr>all_rows = [], all_profiles = [],
               printed = [FoundPageFiles (length (page_files dir))]\<rparr>"
  from assms False obtain st
    where run: "process_files (build_follower_row_existing rp) rd (page_files dir) ?st0 = Inr st"
      and rows: "rows = all_rows st"
    by (auto simp: process_existing_pages_def Let_def split: sum.splits prod.splits)
  from process_files_rows_count[OF existing_builds_iff run] show ?thesis
    by (simp add: rows)
qed

text \<open>
  \<^bold>\<open>C5\<close>, as the code has it. For every set of snapshot files on which a reducer
  completes, the number of its rows is the number of extracted relationship elements on
  which the row builder returns a row (\<open>buildable\<close>); an element on which it raises is
  skipped, by \<^verbatim>\<open>if row:\<close>. When every extracted element is buildable, the number of rows
  is the total count of extracted elements. No row is dropped for being equal to another.
\<close>

theorem rows_count_buildable_elements:
  assumes "process_downloaded_pages rp dir rd = (out, Inr rows)
           \<or> process_existing_pages rp dir rd = (out, Inr rows)"
  shows "length rows = (\<Sum>f\<leftarrow>page_files dir. length (filter buildable (elements_in rd f)))
       \<and> (list_all (\<lambda>f. list_all buildable (elements_in rd f)) (page_files dir)
            \<longrightarrow> length rows = (\<Sum>f\<leftarrow>page_files dir. length (elements_in rd f)))"
proof -
  have "length rows = (\<Sum>f\<leftarrow>page_files dir. length (filter buildable (elements_in rd f)))"
    using assms downloaded_rows_count existing_rows_count by blast
  then show ?thesis
    by (simp add: sum_all_buildable)
qed

text \<open>Two elements that reference the same profile give two rows, equal to each other.\<close>

theorem rows_count_witness:
  "snd (process_existing_pages repr_unused [''followers_page_0.json''] read_alice_twice)
     = Inr [snd (build_follower_row_existing repr_unused alice_element [(KStr ''urn:1'', alice_profile)]),
            snd (build_follower_row_existing repr_unused alice_element [(KStr ''urn:1'', alice_profile)])]
   \<and> elements_in read_alice_twice ''followers_page_0.json'' = [alice_element, alice_element]
   \<and> (\<Sum>f\<leftarrow>page_files [''followers_page_0.json'']. length (elements_in read_alice_twice f)) = 2"
proof -
  let ?r = "process_existing_pages repr_unused [''followers_page_0.json''] read_alice_twice"
  have ev: "snd ?r
     = Inr [snd (build_follower_row_existing repr_unused alice_element [(KStr ''urn:1'', alice_profile)]),
            snd (build_follower_row_existing repr_unused alice_element [(KStr ''urn:1'', alice_profile)])]"
    by code_simp
  then have run: "?r = (fst ?r,
       Inr [snd (build_follower_row_existing repr_unused alice_element [(KStr ''urn:1'', alice_profile)]),
            snd (build_follower_row_existing repr_unused alice_element [(KStr ''urn:1'', alice_profile)])])"
    by (metis prod.collapse)
  have el: "elements_in read_alice_twice ''followers_page_0.json'' = [alice_element, alice_element]"
    by code_simp
  have ok: "list_all (\<lambda>f. list_all buildable (elements_in read_alice_twice f))
              (page_files [''followers_page_0.json''])"
    by code_simp
  from rows_count_buildable_elements[OF disjI2[OF run]] ok
  have "(\<Sum>f\<leftarrow>page_files [''followers_page_0.json'']. length (elements_in read_alice_twice f)) = 2"
    by simp
  with ev el show ?thesis by simp
qed

text \<open>
  C5 as stated fails: one element is extracted from \<open>page_null_follower\<close>, and both
  reducers return no row, since \<^verbatim>\<open>"*profile" in None\<close> raises inside the builder.
\<close>

theorem skipped_element_counterexample:
  "page_files [''followers_page_0.json''] = [''followers_page_0.json'']
   \<and> elements_in read_null_follower ''followers_page_0.json'' = [JObj [(''followerV2'', JNull)]]
   \<and> snd (process_downloaded_pages repr_unused [''followers_page_0.json''] read_null_follower) = Inr []
   \<and> snd (process_existing_pages repr_unused [''followers_page_0.json''] read_null_follower) = Inr []"
  by code_simp

lemma outcome_Inr [simp]: "outcome (Inr st) = Inr (all_rows st, all_profiles st)"
  by (simp add: outcome_def)

lemma outcome_Inl [simp]: "outcome (Inl (out, e)) = Inl e"
  by (simp add: outcome_def)

lemma outcome_process_page:
  assumes "all_rows st = all_rows st'" and "all_profiles st = all_profiles st'"
  shows "outcome (process_page b rd f st) = outcome (process_page b rd f st')"
proof (cases "rd f")
  case None
  then show ?thesis by (simp add: process_page_unreadable assms)
next
  case (Some page_data)
  show ?thesis
    unfolding process_page_Some[of rd f, OF Some]
    by (simp add: assms split: sum.splits)
qed

lemma outcome_bind:
  assumes "outcome r = outcome r'"
    and "\<And>st st'. r = Inr st \<Longrightarrow> r' = Inr st' \<Longrightarrow> outcome (k st) = outcome (k' st')"
  shows "outcome (bind_err r k) = outcome (bind_err r' k')"
proof (cases r)
  case (Inl a)
  with assms(1) show ?thesis
    by (cases r'; cases a) (auto simp: outcome_def split: prod.splits)
next
  case (Inr st)
  with assms(1) obtain st' where "r' = Inr st'"
    by (cases r') (auto simp: outcome_def split: prod.splits)
  with Inr assms(2) show ?thesis by simp
qed

lemma outcome_skip_unreadable:
  assumes "all_rows st = all_rows st'" and "all_profiles st = all_profiles st'"
  shows "outcome (process_files b rd files st)
         = outcome (process_files b rd (filter (\<lambda>f. rd f \<noteq> None) files) st')"
  using assms
proof (induction files arbitrary: st st')
  case Nil
  then show ?case by simp
next
  case (Cons f files)
  show ?case
  proof (cases "rd f")
    case None
    have "outcome (process_files b rd files (st\<lparr>printed := printed st @ [Processing f, ErrorReading f]\<rparr>))
          = outcome (process_files b rd (filter (\<lambda>f. rd f \<noteq> None) files) st')"
      by (rule Cons.IH) (simp_all add: Cons.prems)
    with None show ?thesis
      by (simp add: process_page_unreadable)
  next
    case (Some page_data)
    have "outcome (bind_err (process_page b rd f st) (process_files b rd files))
          = outcome (bind_err (process_page b rd f st')
                      (process_files b rd (filter (\<lambda>f. rd f \<noteq> None) files)))"
    proof (rule outcome_bind)
      show "outcome (process_page b rd f st) = outcome (process_page b rd f st')"
        by (rule outcome_process_page) (simp_all add: Cons.prems)
    next
      fix mid mid'
      assume m: "process_page b rd f st = Inr mid" and m': "process_page b rd f st' = Inr mid'"
      have "outcome (process_page b rd f st) = outcome (process_page b rd f st')"
        by (rule outcome_process_page) (simp_all add: Cons.prems)
      with m m' have "all_rows mid = all_rows mid'" "all_profiles mid = all_profiles mid'"
        by simp_all
      then show "outcome (process_files b rd files mid)
                 = outcome (process_files b rd (filter (\<lambda>f. rd f \<noteq> None) files) mid')"
        by (rule Cons.IH)
    qed
    with Some show ?thesis by simp
  qed
qed

lemma page_files_filter: "page_files (filter P dir) = filter P (page_files dir)"
  by (simp add: page_files_def filter_sort conj_commute)

lemma existing_result_outcome:
  "snd (process_existing_pages rp dir rd)
   = (case outcome (process_files (build_follower_row_existing rp) rd (page_files dir)
                      \<lparr>all_rows = [], all_profiles = [], printed = [FoundPageFiles (length (page_files dir))]\<rparr>) of
        Inl e \<Rightarrow> Inl e | Inr (rows, profiles) \<Rightarrow> Inr rows)"
proof (cases "page_files dir = []")
  case True
  then show ?thesis by (simp add: process_existing_pages_def)
next
  case False
  then show ?thesis
    by (simp add: process_existing_pages_def Let_def outcome_def split: sum.splits prod.splits)
qed

lemma existing_skips_unreadable:
  "snd (process_existing_pages rp dir rd)
   = snd (process_existing_pages rp (filter (\<lambda>f. rd f \<noteq> None) dir) rd)"
proof -
  have "outcome (process_files (build_follower_row_existing rp) rd (page_files dir)
                   \<lparr>all_rows = [], all_profiles = [],
                    printed = [FoundPageFiles (length (page_files dir))]\<rparr>)
        = outcome (process_files (build_follower_row_existing rp) rd
                     (filter (\<lambda>f. rd f \<noteq> None) (page_files dir))
                   \<lparr>all_rows = [], all_profiles = [],
                    printed = [FoundPageFiles (length (filter (\<lambda>f. rd f \<noteq> None) (page_files dir)))]\<rparr>)"
    by (rule outcome_skip_unreadable) simp_all
  then show ?thesis
    unfolding existing_result_outcome page_files_filter by (simp only:)
qed

text \<open>
  \<^bold>\<open>C8\<close>. A snapshot that parses to the empty object yields no profile and no element,
  nothing raises, and the loop goes on to the next file with rows and mapping unchanged.
  A snapshot file that cannot be opened or parsed is skipped and the loop goes on as
  well. The result of \<^verbatim>\<open>process_existing_pages\<close> (its rows, or the exception that ends
  it) is its result on the directory without the unreadable files.
\<close>

theorem empty_and_unreadable_snapshots:
  "extract_profiles_from_page (JObj []) = Inr []
   \<and> extract_elements_from_page (JObj []) = ([], JArr [])
   \<and> (rd f = Some (JObj []) \<longrightarrow>
        process_page b rd f st
          = Inr (st\<lparr>printed := printed st @ [Processing f, FoundProfiles 0, FoundElements 0]\<rparr>)
        \<and> process_files b rd (f # rest) st
          = process_files b rd rest
              (st\<lparr>printed := printed st @ [Processing f, FoundProfiles 0, FoundElements 0]\<rparr>))
   \<and> (rd f = None \<longrightarrow>
        process_page b rd f st = Inr (st\<lparr>printed := printed st @ [Processing f, ErrorReading f]\<rparr>)
        \<and> process_files b rd (f # rest) st
          = process_files b rd rest (st\<lparr>printed := printed st @ [Processing f, ErrorReading f]\<rparr>))
   \<and> snd (process_existing_pages rp dir rd)
       = snd (process_existing_pages rp (filter (\<lambda>f. rd f \<noteq> None) dir) rd)"
proof -
  have p: "extract_profiles_from_page (JObj []) = Inr []"
    by (simp add: extract_profiles_from_page_def)
  have e: "extract_elements_from_page (JObj []) = ([], JArr [])"
    by (simp add: extract_elements_from_page_def extract_elements_try_def
          navigate_to_main_data_def find_follower_elements_def)
  have empty: "rd f = Some (JObj []) \<Longrightarrow>
        process_page b rd f st
          = Inr (st\<lparr>printed := printed st @ [Processing f, FoundProfiles 0, FoundElements 0]\<rparr>)"
    by (simp add: process_page_def p e)
  have unreadable: "rd f = None \<Longrightarrow>
        process_page b rd f st = Inr (st\<lparr>printed := printed st @ [Processing f, ErrorReading f]\<rparr>)"
    by (simp add: process_page_unreadable)
  have empty_next: "rd f = Some (JObj []) \<Longrightarrow>
        process_files b rd (f # rest) st
          = process_files b rd rest
              (st\<lparr>printed := printed st @ [Processing f, FoundProfiles 0, FoundElements 0]\<rparr>)"
    by (simp add: empty)
  have unreadable_next: "rd f = None \<Longrightarrow>
        process_files b rd (f # rest) st
          = process_files b rd rest (st\<lparr>printed := printed st @ [Processing f, ErrorReading f]\<rparr>)"
    by (simp add: unreadable)
  from p e empty empty_next unreadable unreadable_next existing_skips_unreadable[of rp dir rd]
  show ?thesis
    by blast
qed

text \<open>
  On the example directory: page 1 is the empty object, page 3 cannot be read, and the
  outcome is that of the three readable snapshots.
\<close>

theorem empty_and_unreadable_witness:
  "example_read ''followers_page_1.json'' = Some (JObj [])
   \<and> example_read ''followers_page_3.json'' = None
   \<and> process_page (build_follower_row_existing repr_unused) example_read ''followers_page_1.json'' initial_state
       = Inr (initial_state\<lparr>printed := printed initial_state
                @ [Processing ''followers_page_1.json'', FoundProfiles 0, FoundElements 0]\<rparr>)
   \<and> process_page (build_follower_row_existing repr_unused) example_read ''followers_page_3.json'' initial_state
       = Inr (initial_state\<lparr>printed := printed initial_state
                @ [Processing ''followers_page_3.json'', ErrorReading ''followers_page_3.json'']\<rparr>)
   \<and> snd (process_existing_pages repr_unused example_dir example_read)
       = snd (process_existing_pages repr_unused
                [''followers_page_1.json'', ''followers_page_0.json'', ''followers_page_2.json'']
                example_read)"
proof -
  let ?b = "build_follower_row_existing repr_unused"
  have r1: "example_read ''followers_page_1.json'' = Some (JObj [])"
    by (simp add: example_read_def)
  have r3: "example_read ''followers_page_3.json'' = None"
    by (simp add: example_read_def)
  have readable: "filter (\<lambda>f. example_read f \<noteq> None) example_dir
                  = [''followers_page_1.json'', ''followers_page_0.json'', ''followers_page_2.json'']"
    by (simp add: example_read_def example_dir_def)
  note t1 = empty_and_unreadable_snapshots[of example_read "''followers_page_1.json''" ?b initial_state
              "[]" repr_unused example_dir]
  note t3 = empty_and_unreadable_snapshots[of example_read "''followers_page_3.json''" ?b initial_state
              "[]" repr_unused example_dir]
  from t1 r1 have a: "process_page ?b example_read ''followers_page_1.json'' initial_state
       = Inr (initial_state\<lparr>printed := printed initial_state
                @ [Processing ''followers_page_1.json'', FoundProfiles 0, FoundElements 0]\<rparr>)"
    by blast
  from t3 r3 have b: "process_page ?b example_read ''followers_page_3.json'' initial_state
       = Inr (initial_state\<lparr>printed := printed initial_state
                @ [Processing ''followers_page_3.json'', ErrorReading ''followers_page_3.json'']\<rparr>)"
    by blast
  from t1 have "snd (process_existing_pages repr_unused example_dir example_read)
       = snd (process_existing_pages repr_unused
                (filter (\<lambda>f. example_read f \<noteq> None) example_dir) example_read)"
    by blast
  then have c: "snd (process_existing_pages repr_unused example_dir example_read)
       = snd (process_existing_pages repr_unused
                [''followers_page_1.json'', ''followers_page_0.json'', ''followers_page_2.json'']
                example_read)"
    by (simp only: readable)
  from r1 r3 a b c show ?thesis by blast
qed

section \<open>Claims about the process-only entry point\<close>

lemma extract_elements_printed: "list_all loop_msg (fst (extract_elements_from_page page_data))"
  by (cases "extract_elements_try page_data") (simp_all add: extract_elements_from_page_def)

lemma existing_builder_printed: "list_all loop_msg (fst (build_follower_row_existing rp e pm))"
  by (cases "build_follower_row_try_existing rp e pm") (simp_all add: build_follower_row_existing_def)

lemma build_rows_loop_msgs:
  "(\<And>e pm. list_all loop_msg (fst (b e pm))) \<Longrightarrow> list_all loop_msg (fst (build_rows b items pm))"
  by (simp add: build_rows_printed list_all_iff)

lemma process_page_printed:
  assumes b: "\<And>e pm. list_all loop_msg (fst (b e pm))"
    and run: "process_page b rd f st = Inr st'"
  shows "\<exists>ms. printed st' = printed st @ ms \<and> list_all loop_msg ms"
proof (cases "rd f")
  case None
  with run show ?thesis
    by (auto simp: process_page_unreadable)
next
  case (Some page_data)
  from run obtain page_profiles n where
    st': "printed st' = printed st @ [Processing f, FoundProfiles (length page_profiles)]
            @ fst (extract_elements_from_page page_data) @ [FoundElements n]
            @ fst (build_rows b (elements_in rd f) (dict_update (all_profiles st) page_profiles))"
    unfolding process_page_Some[of rd f, OF Some]
    by (auto split: sum.splits)
  have "list_all loop_msg ([Processing f, FoundProfiles (length page_profiles)]
            @ fst (extract_elements_from_page page_data) @ [FoundElements n]
            @ fst (build_rows b (elements_in rd f) (dict_update (all_profiles st) page_profiles)))"
    using extract_elements_printed[of page_data] build_rows_loop_msgs[of b, OF b]
    by simp
  with st' show ?thesis by blast
qed

lemma process_files_printed:
  assumes b: "\<And>e pm. list_all loop_msg (fst (b e pm))"
    and run: "process_files b rd files st = Inr st'"
  shows "\<exists>ms. printed st' = printed st @ ms \<and> list_all loop_msg ms"
  using run
proof (induction files arbitrary: st)
  case Nil
  then show ?case by simp
next
  case (Cons f files)
  from Cons.prems obtain mid where p: "process_page b rd f st = Inr mid"
    and r: "process_files b rd files mid = Inr st'"
    by (auto simp: bind_err_eq_Inr)
  from process_page_printed[of b, OF b p] obtain ms1
    where m1: "printed mid = printed st @ ms1" "list_all loop_msg ms1" by blast
  from Cons.IH[OF r] obtain ms2
    where m2: "printed st' = printed mid @ ms2" "list_all loop_msg ms2" by blast
  from m1 m2 have "printed st' = printed st @ (ms1 @ ms2) \<and> list_all loop_msg (ms1 @ ms2)"
    by simp
  then show ?case by blast
qed

lemma existing_out_shape:
  assumes "page_files dir \<noteq> []" and "process_existing_pages rp dir rd = (out, Inr rows)"
  shows "\<exists>ms n. out = FoundPageFiles (length (page_files dir)) # ms
                       @ [TotalUniqueProfiles n, TotalFollowerRows (length rows)]
               \<and> list_all loop_msg ms"
proof -
  let ?st0 = "\<lparr>all_rows = [], all_profiles = [],
               printed = [FoundPageFiles (length (page_files dir))]\<rparr>"
  from assms obtain st
    where run: "process_files (build_follower_row_existing rp) rd (page_files dir) ?st0 = Inr st"
      and rows: "rows = all_rows st"
      and out: "out = printed st @ [TotalUniqueProfiles (length (all_profiles st)),
                                    TotalFollowerRows (length (all_rows st))]"
    by (auto simp: process_existing_pages_def Let_def split: sum.splits prod.splits)
  from process_files_printed[of "build_follower_row_existing rp", OF existing_builder_printed run]
  obtain ms where "printed st = [FoundPageFiles (length (page_files dir))] @ ms" "list_all loop_msg ms"
    by auto
  with out rows show ?thesis by auto
qed

lemma loop_msgs_not_Print:
  "list_all loop_msg ms \<Longrightarrow> \<not> loop_msg m \<Longrightarrow> Print m \<notin> set (map Print ms)"
  by (auto simp: list_all_iff)

lemma main_existing_no_files:
  "page_files dir = [] \<Longrightarrow>
   main_existing rp io dir rd =
     ([Print BannerTitle, Print BannerRule, Print BannerProcessing,
       Print (NoFilesFoundMatching INPUT_PATTERN), Print MakeSureDownloaded, Print NoDataFound], None)"
  by (simp add: main_existing_def process_existing_pages_def)

lemma main_existing_no_rows:
  assumes "page_files dir \<noteq> []" and "snd (process_existing_pages rp dir rd) = Inr []"
  shows "snd (main_existing rp io dir rd) = None"
    and "Print NoDataFound \<in> set (fst (main_existing rp io dir rd))"
    and "Print (TotalFollowerRows 0) \<in> set (fst (main_existing rp io dir rd))"
    and "Print (NoFilesFoundMatching INPUT_PATTERN) \<notin> set (fst (main_existing rp io dir rd))"
    and "OpenForWriting name \<notin> set (fst (main_existing rp io dir rd))"
proof -
  obtain out where r: "process_existing_pages rp dir rd = (out, Inr [])"
    using assms(2) by (cases "process_existing_pages rp dir rd") auto
  from existing_out_shape[OF assms(1) r] obtain ms n
    where out: "out = FoundPageFiles (length (page_files dir)) # ms
                       @ [TotalUniqueProfiles n, TotalFollowerRows 0]"
      and ms: "list_all loop_msg ms" by auto
  have m: "main_existing rp io dir rd =
     ([Print BannerTitle, Print BannerRule, Print BannerProcessing] @ map Print out @ [Print NoDataFound], None)"
    by (simp add: main_existing_def r)
  have nf: "Print (NoFilesFoundMatching INPUT_PATTERN) \<notin> set (map Print ms)"
    by (rule loop_msgs_not_Print[OF ms]) simp
  show "snd (main_existing rp io dir rd) = None" by (simp add: m)
  show "Print NoDataFound \<in> set (fst (main_existing rp io dir rd))" by (simp add: m)
  show "Print (TotalFollowerRows 0) \<in> set (fst (main_existing rp io dir rd))" by (simp add: m out)
  show "Print (NoFilesFoundMatching INPUT_PATTERN) \<notin> set (fst (main_existing rp io dir rd))"
    using nf by (auto simp: m out)
  show "OpenForWriting name \<notin> set (fst (main_existing rp io dir rd))"
    by (auto simp: m)
qed

lemma write_csv_effects:
  "Print NoDataFound \<notin> set (fst (write_csv io name rows))
   \<and> Print (NoFilesFoundMatching p) \<notin> set (fst (write_csv io name rows))"
  by (cases io) (simp_all add: write_csv_def)

lemma main_existing_rows:
  assumes "snd (process_existing_pages rp dir rd) = Inr rows" and "rows \<noteq> []"
  shows "snd (main_existing rp io dir rd) = None"
    and "Print NoDataFound \<notin> set (fst (main_existing rp io dir rd))"
    and "Print (NoFilesFoundMatching INPUT_PATTERN) \<notin> set (fst (main_existing rp io dir rd))"
    and "Print (Success OUTPUT_FILE (length rows)) \<in> set (fst (main_existing rp io dir rd))
         \<or> Print FailedToCreateCSV \<in> set (fst (main_existing rp io dir rd))"
proof -
  obtain out where r: "process_existing_pages rp dir rd = (out, Inr rows)"
    using assms(1) by (cases "process_existing_pages rp dir rd") auto
  have files: "page_files dir \<noteq> []"
    using r assms(2) by (auto simp: process_existing_pages_def)
  from existing_out_shape[OF files r] obtain ms n
    where out: "out = FoundPageFiles (length (page_files dir)) # ms
                       @ [TotalUniqueProfiles n, TotalFollowerRows (length rows)]"
      and ms: "list_all loop_msg ms" by auto
  have nd: "Print NoDataFound \<notin> set (map Print ms)"
    by (rule loop_msgs_not_Print[OF ms]) simp
  have nf: "Print (NoFilesFoundMatching INPUT_PATTERN) \<notin> set (map Print ms)"
    by (rule loop_msgs_not_Print[OF ms]) simp
  obtain effects ok where w: "write_csv io OUTPUT_FILE rows = (effects, ok)"
    by (cases "write_csv io OUTPUT_FILE rows")
  from write_csv_effects[of io OUTPUT_FILE rows] w
  have e: "Print NoDataFound \<notin> set effects" "Print (NoFilesFoundMatching INPUT_PATTERN) \<notin> set effects"
    by simp_all
  have m: "main_existing rp io dir rd =
     (if ok then
        ([Print BannerTitle, Print BannerRule, Print BannerProcessing] @ map Print out @ effects
           @ [Print (Success OUTPUT_FILE (length rows)), Print CsvIncludes], None)
      else ([Print BannerTitle, Print BannerRule, Print BannerProcessing] @ map Print out @ effects
           @ [Print FailedToCreateCSV], None))"
    using assms(2) by (simp add: main_existing_def r w)
  show "snd (main_existing rp io dir rd) = None" by (simp add: m)
  show "Print NoDataFound \<notin> set (fst (main_existing rp io dir rd))"
    using nd e by (auto simp: m out)
  show "Print (NoFilesFoundMatching INPUT_PATTERN) \<notin> set (fst (main_existing rp io dir rd))"
    using nf e by (auto simp: m out)
  show "Print (Success OUTPUT_FILE (length rows)) \<in> set (fst (main_existing rp io dir rd))
         \<or> Print FailedToCreateCSV \<in> set (fst (main_existing rp io dir rd))"
    by (simp add: m)
qed

text \<open>
  What \<^verbatim>\<open>main\<close> of \<^verbatim>\<open>process_existing_followers.py\<close> reports where the reducer returns:
  \<^item> with no snapshot file it prints \<^verbatim>\<open>"No files found matching pattern: ..."\<close> (and then
    \<^verbatim>\<open>"No data found to process"\<close>), returns normally and opens no file;
  \<^item> with snapshot files, when the reducer returns no row, it returns normally, prints
    \<^verbatim>\<open>"Total follower rows: 0"\<close> and \<^verbatim>\<open>"No data found to process"\<close>, does not print the
    "no files found" message, and opens no file;
  \<^item> when the reducer returns rows, it prints neither of the two messages;
  \<^item> \<^verbatim>\<open>write_csv\<close> with no rows prints \<^verbatim>\<open>"No rows to write"\<close>, returns \<^verbatim>\<open>False\<close> and
    opens no file.
  That the reducer returns is a hypothesis of the second and third part: it need not.
\<close>

lemma reports_when_reducer_returns:
  "(page_files dir = [] \<longrightarrow>
      main_existing rp io dir rd =
        ([Print BannerTitle, Print BannerRule, Print BannerProcessing,
          Print (NoFilesFoundMatching INPUT_PATTERN), Print MakeSureDownloaded, Print NoDataFound], None))
   \<and> (page_files dir \<noteq> [] \<and> snd (process_existing_pages rp dir rd) = Inr [] \<longrightarrow>
        snd (main_existing rp io dir rd) = None
      \<and> Print NoDataFound \<in> set (fst (main_existing rp io dir rd))
      \<and> Print (TotalFollowerRows 0) \<in> set (fst (main_existing rp io dir rd))
      \<and> Print (NoFilesFoundMatching INPUT_PATTERN) \<notin> set (fst (main_existing rp io dir rd))
      \<and> (\<forall>name. OpenForWriting name \<notin> set (fst (main_existing rp io dir rd))))
   \<and> (snd (process_existing_pages rp dir rd) = Inr rows \<and> rows \<noteq> [] \<longrightarrow>
        snd (main_existing rp io dir rd) = None
      \<and> Print NoDataFound \<notin> set (fst (main_existing rp io dir rd))
      \<and> Print (NoFilesFoundMatching INPUT_PATTERN) \<notin> set (fst (main_existing rp io dir rd)))
   \<and> write_csv io name [] = ([Print NoRowsToWrite], False)"
proof (intro conjI impI allI)
  assume "page_files dir = []"
  then show "main_existing rp io dir rd =
        ([Print BannerTitle, Print BannerRule, Print BannerProcessing,
          Print (NoFilesFoundMatching INPUT_PATTERN), Print MakeSureDownloaded, Print NoDataFound], None)"
    by (rule main_existing_no_files)
next
  assume h: "page_files dir \<noteq> [] \<and> snd (process_existing_pages rp dir rd) = Inr []"
  then show "snd (main_existing rp io dir rd) = None"
    using main_existing_no_rows(1) by blast
next
  assume h: "page_files dir \<noteq> [] \<and> snd (process_existing_pages rp dir rd) = Inr []"
  then show "Print NoDataFound \<in> set (fst (main_existing rp io dir rd))"
    using main_existing_no_rows(2) by blast
next
  assume h: "page_files dir \<noteq> [] \<and> snd (process_existing_pages rp dir rd) = Inr []"
  then show "Print (TotalFollowerRows 0) \<in> set (fst (main_existing rp io dir rd))"
    using main_existing_no_rows(3) by blast
next
  assume h: "page_files dir \<noteq> [] \<and> snd (process_existing_pages rp dir rd) = Inr []"
  then show "Print (NoFilesFoundMatching INPUT_PATTERN) \<notin> set (fst (main_existing rp io dir rd))"
    using main_existing_no_rows(4) by blast
next
  fix name
  assume h: "page_files dir \<noteq> [] \<and> snd (process_existing_pages rp dir rd) = Inr []"
  then show "OpenForWriting name \<notin> set (fst (main_existing rp io dir rd))"
    using main_existing_no_rows(5) by blast
next
  assume h: "snd (process_existing_pages rp dir rd) = Inr rows \<and> rows \<noteq> []"
  then show "snd (main_existing rp io dir rd) = None"
    using main_existing_rows(1) by blast
next
  assume h: "snd (process_existing_pages rp dir rd) = Inr rows \<and> rows \<noteq> []"
  then show "Print NoDataFound \<notin> set (fst (main_existing rp io dir rd))"
    using main_existing_rows(2) by blast
next
  assume h: "snd (process_existing_pages rp dir rd) = Inr rows \<and> rows \<noteq> []"
  then show "Print (NoFilesFoundMatching INPUT_PATTERN) \<notin> set (fst (main_existing rp io dir rd))"
    using main_existing_rows(3) by blast
next
  show "write_csv io name [] = ([Print NoRowsToWrite], False)"
    by (simp add: write_csv_def)
qed

text \<open>
  A directory without snapshot files, a directory whose only snapshot is the empty object,
  and the example directory, which gives one row.
\<close>

lemma reports_when_reducer_returns_example:
  "page_files [''notes.txt''] = []
   \<and> main_existing repr_unused WriteOk [''notes.txt''] example_read =
        ([Print BannerTitle, Print BannerRule, Print BannerProcessing,
          Print (NoFilesFoundMatching INPUT_PATTERN), Print MakeSureDownloaded, Print NoDataFound], None)
   \<and> page_files [''followers_page_1.json''] = [''followers_page_1.json'']
   \<and> snd (process_existing_pages repr_unused [''followers_page_1.json''] example_read) = Inr []
   \<and> Print (TotalFollowerRows 0)
        \<in> set (fst (main_existing repr_unused WriteOk [''followers_page_1.json''] example_read))
   \<and> Print (NoFilesFoundMatching INPUT_PATTERN)
        \<notin> set (fst (main_existing repr_unused WriteOk [''followers_page_1.json''] example_read))
   \<and> snd (process_existing_pages repr_unused example_dir example_read)
       = Inr [snd (build_follower_row_existing repr_unused alice_element [(KStr ''urn:1'', alice_profile)])]
   \<and> Print NoDataFound \<notin> set (fst (main_existing repr_unused WriteOk example_dir example_read))"
proof -
  have a: "page_files [''notes.txt''] = []"
    by code_simp
  have b1: "page_files [''followers_page_1.json''] = [''followers_page_1.json'']"
    by code_simp
  have b2: "snd (process_existing_pages repr_unused [''followers_page_1.json''] example_read) = Inr []"
    by code_simp
  have c1: "snd (process_existing_pages repr_unused example_dir example_read)
       = Inr [snd (build_follower_row_existing repr_unused alice_element [(KStr ''urn:1'', alice_profile)])]"
    by code_simp
  have c2: "[snd (build_follower_row_existing repr_unused alice_element [(KStr ''urn:1'', alice_profile)])] \<noteq> []"
    by simp
  from reports_when_reducer_returns[of "[''notes.txt'']" repr_unused WriteOk example_read "[]" "[]"] a
  have wa: "main_existing repr_unused WriteOk [''notes.txt''] example_read =
        ([Print BannerTitle, Print BannerRule, Print BannerProcessing,
          Print (NoFilesFoundMatching INPUT_PATTERN), Print MakeSureDownloaded, Print NoDataFound], None)"
    by blast
  have b1': "page_files [''followers_page_1.json''] \<noteq> []"
    by (simp only: b1) simp
  from reports_when_reducer_returns[of "[''followers_page_1.json'']" repr_unused WriteOk example_read "[]" "[]"]
    b1' b2
  have wb: "Print (TotalFollowerRows 0)
        \<in> set (fst (main_existing repr_unused WriteOk [''followers_page_1.json''] example_read))
      \<and> Print (NoFilesFoundMatching INPUT_PATTERN)
        \<notin> set (fst (main_existing repr_unused WriteOk [''followers_page_1.json''] example_read))"
    by blast
  from reports_when_reducer_returns[of example_dir repr_unused WriteOk example_read
      "[snd (build_follower_row_existing repr_unused alice_element [(KStr ''urn:1'', alice_profile)])]" "[]"]
    c1 c2
  have wc: "Print NoDataFound \<notin> set (fst (main_existing repr_unused WriteOk example_dir example_read))"
    by blast
  from a wa b1 b2 wb c1 wc show ?thesis by blast
qed

text \<open>
  \<^bold>\<open>C9\<close>. When snapshot files exist but yield zero relationship elements, the entry
  point reports a "no rows produced" condition, a non-fatal outcome. The code does not
  always get there: \<^verbatim>\<open>extract_profiles_from_page\<close> and \<^verbatim>\<open>len(elements)\<close> run outside
  every \<^verbatim>\<open>try\<close>, unlike the reading of the file, the extraction of the elements and the
  building of a row. On a directory whose single snapshot is \<^verbatim>\<open>{"included": null}\<close>, or
  holds a container with \<^verbatim>\<open>"elements": null\<close>, no element is extracted and \<^verbatim>\<open>main\<close> ends
  with an uncaught \<^verbatim>\<open>TypeError\<close> after the "Processing" line (and the profile count),
  without \<^verbatim>\<open>"No data found to process"\<close>.
\<close>

theorem main_dies_on_null_included:
  "page_files [''followers_page_0.json''] = [''followers_page_0.json'']
   \<and> elements_in read_included_null ''followers_page_0.json'' = []
   \<and> main_existing rp io [''followers_page_0.json''] read_included_null
       = ([Print BannerTitle, Print BannerRule, Print BannerProcessing,
           Print (FoundPageFiles 1), Print (Processing ''followers_page_0.json'')],
          Some TypeError)
   \<and> elements_in read_elements_null ''followers_page_0.json'' = []
   \<and> main_existing rp io [''followers_page_0.json''] read_elements_null
       = ([Print BannerTitle, Print BannerRule, Print BannerProcessing,
           Print (FoundPageFiles 1), Print (Processing ''followers_page_0.json''),
           Print (FoundProfiles 0)],
          Some TypeError)"
  by code_simp

section \<open>The two reducers against each other\<close>

text \<open>
  Where the profile of an element is found and has an \<^verbatim>\<open>entityUrn\<close> (as every profile the
  entity extractor stores has), the two builders return the same.
\<close>

lemma builders_agree_on_profile_urn:
  assumes "get_profile_urn (JObj kvs) = Inr urn"
    and "get_profile_data pm urn = Inr (JObj p)"
    and "map_of p ''entityUrn'' = Some u"
  shows "build_follower_row_complete rp (JObj kvs) pm = build_follower_row_existing rp (JObj kvs) pm"
  by (simp add: build_follower_row_complete_def build_follower_row_existing_def
        try_complete_dict[OF assms(1,2)] try_existing_dict[OF assms(1,2)] assms(3))

text \<open>
  \<^bold>\<open>C4\<close>. The two reducers produce the same rows, their row builders the same row for
  every element and mapping. They do not: for \<open>element_without_profile\<close> and the empty
  mapping the builders differ, and on the directory whose single snapshot is
  \<open>page_orphan\<close> the reducer of \<^verbatim>\<open>linkedin_followers_complete.py\<close> returns a row with
  the element's identifier where that of \<^verbatim>\<open>process_existing_followers.py\<close> returns a
  row with an empty one.
\<close>

theorem reducers_differ_on_missing_profile:
  "build_follower_row_complete rp element_without_profile []
     \<noteq> build_follower_row_existing rp element_without_profile []
   \<and> snd (process_downloaded_pages rp [''followers_page_0.json''] read_orphan)
     \<noteq> snd (process_existing_pages rp [''followers_page_0.json''] read_orphan)
   \<and> snd (process_existing_pages rp [''followers_page_0.json''] read_orphan)
     = Inr [[(''firstName'', JStr ''''), (''lastName'', JStr ''''), (''headline'', JStr ''''),
             (''publicIdentifier'', JStr ''''), (''linkedinUrl'', JStr ''''),
             (''followedAt.text'', JStr ''3d''), (''followedAt.accessibilityText'', JStr ''''),
             (''entityUrn'', JStr '''')]]
   \<and> snd (process_downloaded_pages rp [''followers_page_0.json''] read_orphan)
     = Inr [[(''firstName'', JStr ''''), (''lastName'', JStr ''''), (''headline'', JStr ''''),
             (''publicIdentifier'', JStr ''''), (''linkedinUrl'', JStr ''''),
             (''followedAt.text'', JStr ''3d''), (''followedAt.accessibilityText'', JStr ''''),
             (''entityUrn'', JStr ''urn:li:fsd_follower:1'')]]"
  by code_simp

section \<open>Claims about the order of the snapshot files\<close>

















end
